theory Spec2Isabelle
  imports Main "HOL-Library.Signed_Division" "HOL-Library.Sublist"
begin

section \<open>Content model (types.ts)\<close>

text \<open>
  The persisted site data. Records follow the TypeScript interfaces field by field; an
  optional field (\<^verbatim>\<open>client?\<close>, \<^verbatim>\<open>link?\<close>, \<^verbatim>\<open>logoUrl?\<close>) is an \<open>option\<close>.
  The identifier fields are called \<open>project_id\<close> and \<open>exhibition_id\<close> (the source's
  \<^verbatim>\<open>id\<close> is HOL's identity function), and the fields of an exhibition carry the
  prefix \<open>exhibition_\<close> because a project has a \<^verbatim>\<open>title\<close> too.

  \<^verbatim>\<open>ProjectImage = string | { url: string; alt?: string }\<close>; the gallery also reads an
  optional \<^verbatim>\<open>type\<close> of the object form (ProjectDetail.tsx, toSlide), so the object
  form carries it.
\<close>

datatype SlideType = Image | YouTube

datatype ProjectImage =
    ImageUrl string
  | ImageObject string "string option" "SlideType option"

record Project =
  project_id :: string
  title :: string
  category :: string
  thumbnail :: string
  description :: string
  images :: "ProjectImage list"
  year :: string
  client :: "string option"

record Exhibition =
  exhibition_id :: string
  exhibition_title :: string
  exhibition_date :: string
  exhibition_location :: string
  exhibition_link :: "string option"

record SiteContent =
  logoUrl :: "string option"
  heroLogoUrl :: "string option"
  projects :: "Project list"
  exhibitions :: "Exhibition list"
  contactEmail :: string

text \<open>
  What JavaScript can throw in the handlers modelled below. A handler that can throw
  returns \<open>error + 'a\<close>, with \<open>Inl\<close> the exception that leaves the handler.
\<close>

datatype error = TypeError | SyntaxError

text \<open>
  \<^verbatim>\<open>xs[i]\<close> on a JavaScript array: the element, or \<^verbatim>\<open>undefined\<close> (\<open>None\<close>) for an
  index that is negative or past the end.
\<close>

definition array_get :: "'a list \<Rightarrow> int \<Rightarrow> 'a option" where
  "array_get xs i = (if 0 \<le> i \<and> i < int (length xs) then Some (xs ! nat i) else None)"

section \<open>Gallery / slideshow (components/ProjectDetail.tsx)\<close>

record Slide =
  url :: string
  alt :: "string option"
  slide_type :: SlideType

text \<open>
  \<^verbatim>\<open>/youtube\.com\/watch\?v=|youtu\.be\//i.test(url)\<close>: the URL contains one of the two
  literal texts, letters compared without case. Without the \<^verbatim>\<open>u\<close> flag a character
  outside ASCII never matches an ASCII letter, so lowering A to Z is the whole of it.
\<close>

definition toLower :: "char \<Rightarrow> char" where
  "toLower c = (let n = (of_char c :: nat) in if 65 \<le> n \<and> n \<le> 90 then char_of (n + 32) else c)"

fun contains :: "string \<Rightarrow> string \<Rightarrow> bool" where
  "contains pat [] = (pat = [])"
| "contains pat (c # cs) = (prefix pat (c # cs) \<or> contains pat cs)"

definition isYouTubeUrl :: "string \<Rightarrow> bool" where
  "isYouTubeUrl u =
     (contains ''youtube.com/watch?v='' (map toLower u) \<or> contains ''youtu.be/'' (map toLower u))"

fun toSlide :: "ProjectImage \<Rightarrow> Slide" where
  "toSlide (ImageUrl img) =
     \<lparr>url = img, alt = None, slide_type = (if isYouTubeUrl img then YouTube else Image)\<rparr>"
| "toSlide (ImageObject u a t) =
     \<lparr>url = u, alt = a,
      slide_type = (case t of Some ty \<Rightarrow> ty
                    | None \<Rightarrow> if isYouTubeUrl u then YouTube else Image)\<rparr>"

text \<open>
  \<^verbatim>\<open>(project.images.length > 0 ? project.images : [project.thumbnail]).map(toSlide)\<close>
\<close>

definition slides :: "Project \<Rightarrow> Slide list" where
  "slides project =
     map toSlide (if length (images project) > 0 then images project
                  else [ImageUrl (thumbnail project)])"

text \<open>
  The state of one mounted ProjectDetail: the \<^verbatim>\<open>useState\<close> cell and the three refs.
  JavaScript numbers are doubles; slide indices and pixel coordinates are modelled as
  integers, on which the arithmetic used here is exact. \<^verbatim>\<open>%\<close> is the remainder that
  takes the sign of the dividend, \<open>smod\<close>.
\<close>

record gallery =
  currentSlide :: int
  touchStartX :: "int option"
  touchStartY :: "int option"
  isSwiping :: bool

definition initial_gallery :: gallery where
  "initial_gallery = \<lparr>currentSlide = 0, touchStartX = None, touchStartY = None, isSwiping = False\<rparr>"

text \<open>The handlers close over the slide list of the current render, here \<open>sl\<close>.\<close>

definition nextSlide :: "Slide list \<Rightarrow> gallery \<Rightarrow> gallery" where
  "nextSlide sl g = g\<lparr>currentSlide := (currentSlide g + 1) smod int (length sl)\<rparr>"

definition prevSlide :: "Slide list \<Rightarrow> gallery \<Rightarrow> gallery" where
  "prevSlide sl g =
     g\<lparr>currentSlide := (currentSlide g - 1 + int (length sl)) smod int (length sl)\<rparr>"

text \<open>
  Swipe recognition. The two pixel thresholds are written as literals in the source
  (\<^verbatim>\<open>Math.abs(deltaX) > 10\<close> in handleTouchMove, \<^verbatim>\<open>Math.abs(deltaX) > 40\<close> in
  handleTouchEnd); they are named here as the specification names them.
\<close>

definition dead_zone :: int where
  "dead_zone = 10"

definition commit_threshold :: int where
  "commit_threshold = 40"

text \<open>A call of \<^verbatim>\<open>nextSlide()\<close> or \<^verbatim>\<open>prevSlide()\<close> made by a touch handler.\<close>

datatype nav = NavNext | NavPrev

definition handleTouchStart :: "int \<Rightarrow> int \<Rightarrow> gallery \<Rightarrow> gallery" where
  "handleTouchStart x y g = g\<lparr>touchStartX := Some x, touchStartY := Some y, isSwiping := False\<rparr>"

definition handleTouchMove :: "int \<Rightarrow> int \<Rightarrow> gallery \<Rightarrow> gallery" where
  "handleTouchMove x y g =
     (case (touchStartX g, touchStartY g) of
        (Some sx, Some sy) \<Rightarrow>
          (let deltaX = x - sx; deltaY = y - sy
           in if \<not> isSwiping g \<and> \<bar>deltaX\<bar> > \<bar>deltaY\<bar> \<and> \<bar>deltaX\<bar> > dead_zone
              then g\<lparr>isSwiping := True\<rparr> else g)
      | _ \<Rightarrow> g)"

text \<open>
  handleTouchEnd returns the navigation calls it made, in order, with the new state.
  The early return (no start point, or not in swipe mode) leaves the refs as they are;
  the other path clears them after the navigation.
\<close>

definition handleTouchEnd :: "Slide list \<Rightarrow> int \<Rightarrow> int \<Rightarrow> gallery \<Rightarrow> nav list \<times> gallery" where
  "handleTouchEnd sl x y g =
     (case (touchStartX g, touchStartY g) of
        (Some sx, Some sy) \<Rightarrow>
          if \<not> isSwiping g then ([], g)
          else
            (let deltaX = x - sx; deltaY = y - sy;
                 (calls, g1) =
                   (if \<bar>deltaX\<bar> > \<bar>deltaY\<bar> \<and> \<bar>deltaX\<bar> > commit_threshold
                    then (if deltaX < 0 then ([NavNext], nextSlide sl g)
                          else ([NavPrev], prevSlide sl g))
                    else ([], g))
             in (calls, g1\<lparr>touchStartX := None, touchStartY := None, isSwiping := False\<rparr>))
      | _ \<Rightarrow> ([], g))"

text \<open>
  One touch sequence: the finger goes down at \<open>start\<close>, moves through \<open>moves\<close> and is
  lifted at \<open>release\<close>. \<open>swipe_intent\<close> is the test by which a move point enters swipe
  mode.
\<close>

definition touch_moves :: "(int \<times> int) list \<Rightarrow> gallery \<Rightarrow> gallery" where
  "touch_moves moves g = foldl (\<lambda>g' (x, y). handleTouchMove x y g') g moves"

definition touch_sequence ::
  "Slide list \<Rightarrow> int \<times> int \<Rightarrow> (int \<times> int) list \<Rightarrow> int \<times> int \<Rightarrow> gallery \<Rightarrow> nav list \<times> gallery" where
  "touch_sequence sl start moves release g =
     handleTouchEnd sl (fst release) (snd release)
       (touch_moves moves (handleTouchStart (fst start) (snd start) g))"

definition swipe_intent :: "int \<times> int \<Rightarrow> int \<times> int \<Rightarrow> bool" where
  "swipe_intent start p =
     (\<bar>fst p - fst start\<bar> > \<bar>snd p - snd start\<bar> \<and> \<bar>fst p - fst start\<bar> > dead_zone)"

text \<open>
  Rendering the gallery reads \<^verbatim>\<open>slides[currentSlide].type\<close>: a TypeError when the index
  names no slide.
\<close>

definition render_slide :: "Slide list \<Rightarrow> gallery \<Rightarrow> error + Slide" where
  "render_slide sl g =
     (case array_get sl (currentSlide g) of None \<Rightarrow> Inl TypeError | Some s \<Rightarrow> Inr s)"

section \<open>Presentation shell (App.tsx)\<close>

text \<open>
  The state of App that filtering and navigation read. \<open>app_content\<close> is the source's
  \<^verbatim>\<open>content\<close> (\<open>None\<close> while nothing is loaded); the loading and error cells play no
  part below.
\<close>

record app_state =
  app_content :: "SiteContent option"
  isAdmin :: bool
  activeCategory :: string
  selectedProjectId :: "string option"

datatype direction = Prev | Next

definition filteredProjects :: "app_state \<Rightarrow> Project list" where
  "filteredProjects st =
     (case app_content st of
        None \<Rightarrow> []
      | Some c \<Rightarrow>
          if activeCategory st = ''all'' then projects c
          else filter (\<lambda>p. category p = activeCategory st) (projects c))"

text \<open>\<^verbatim>\<open>Array.prototype.findIndex\<close>: the first index whose element passes, or \<open>-1\<close>.\<close>

fun findIndex :: "('a \<Rightarrow> bool) \<Rightarrow> 'a list \<Rightarrow> int" where
  "findIndex P [] = - 1"
| "findIndex P (x # xs) =
     (if P x then 0 else (let r = findIndex P xs in if r = - 1 then - 1 else r + 1))"

definition selectedProjectIndex :: "app_state \<Rightarrow> int" where
  "selectedProjectIndex st =
     findIndex (\<lambda>p. Some (project_id p) = selectedProjectId st) (filteredProjects st)"

definition selectedProject :: "app_state \<Rightarrow> Project option" where
  "selectedProject st = array_get (filteredProjects st) (selectedProjectIndex st)"

text \<open>
  \<^verbatim>\<open>filteredProjects[newIndex].id\<close> throws a TypeError when the entry is undefined.
\<close>

definition handleNavigate :: "direction \<Rightarrow> app_state \<Rightarrow> error + app_state" where
  "handleNavigate dir st =
     (if selectedProjectIndex st = - 1 then Inr st
      else
        (let len = int (length (filteredProjects st));
             newIndex = (if dir = Next then selectedProjectIndex st + 1
                         else selectedProjectIndex st - 1);
             newIndex = (if newIndex \<ge> len then 0 else newIndex);
             newIndex = (if newIndex < 0 then len - 1 else newIndex)
         in case array_get (filteredProjects st) newIndex of
              None \<Rightarrow> Inl TypeError
            | Some p \<Rightarrow> Inr (st\<lparr>selectedProjectId := Some (project_id p)\<rparr>)))"

definition handleCloseModal :: "app_state \<Rightarrow> app_state" where
  "handleCloseModal st = st\<lparr>selectedProjectId := None\<rparr>"

subsection \<open>The detail overlay inside the shell\<close>

text \<open>
  App renders \<^verbatim>\<open>{selectedProject && (<div ...><ProjectDetail project={selectedProject} /></div>)}\<close>.
  The page is the state of App together with the state of the ProjectDetail instance
  that is mounted, if one is. The element carries no \<^verbatim>\<open>key\<close>, so React keeps the
  instance and its \<^verbatim>\<open>useState\<close> cell for as long as some project is selected, whichever
  project that is; the instance is created (\<^verbatim>\<open>useState(0)\<close>) when a project becomes
  selected and dropped when none is.
\<close>

record page =
  app :: app_state
  detail :: "gallery option"

definition mount_detail :: "app_state \<Rightarrow> gallery option \<Rightarrow> gallery option" where
  "mount_detail st d =
     (case selectedProject st of
        None \<Rightarrow> None
      | Some p \<Rightarrow> (case d of None \<Rightarrow> Some initial_gallery | Some g \<Rightarrow> Some g))"

text \<open>
  After a state change the page is rendered again: the overlay is mounted, kept or
  dropped, and the mounted gallery reads its current slide.
\<close>

definition rerender :: "page \<Rightarrow> error + page" where
  "rerender pg =
     (let pg' = pg\<lparr>detail := mount_detail (app pg) (detail pg)\<rparr>
      in case (selectedProject (app pg'), detail pg') of
           (Some p, Some g) \<Rightarrow>
             (case render_slide (slides p) g of Inl e \<Rightarrow> Inl e | Inr _ \<Rightarrow> Inr pg')
         | _ \<Rightarrow> Inr pg')"

text \<open>
  The clicks the visitor can make: a card of the grid, prev/next project and close in
  the header, a category filter, and the two slide buttons of the gallery (rendered
  only when there is more than one slide).
\<close>

datatype page_event =
    ClickProject string
  | NavigateProject direction
  | CloseModal
  | SelectCategory string
  | ClickNextSlide
  | ClickPrevSlide

definition click_slide :: "(Slide list \<Rightarrow> gallery \<Rightarrow> gallery) \<Rightarrow> page \<Rightarrow> page" where
  "click_slide h pg =
     (case (selectedProject (app pg), detail pg) of
        (Some p, Some g) \<Rightarrow>
          if length (slides p) > 1 then pg\<lparr>detail := Some (h (slides p) g)\<rparr> else pg
      | _ \<Rightarrow> pg)"

fun page_step :: "page_event \<Rightarrow> page \<Rightarrow> error + page" where
  "page_step (ClickProject i) pg = rerender (pg\<lparr>app := (app pg)\<lparr>selectedProjectId := Some i\<rparr>\<rparr>)"
| "page_step (NavigateProject d) pg =
     (case handleNavigate d (app pg) of
        Inl e \<Rightarrow> Inl e
      | Inr st \<Rightarrow> rerender (pg\<lparr>app := st\<rparr>))"
| "page_step CloseModal pg = rerender (pg\<lparr>app := handleCloseModal (app pg)\<rparr>)"
| "page_step (SelectCategory c) pg = rerender (pg\<lparr>app := (app pg)\<lparr>activeCategory := c\<rparr>\<rparr>)"
| "page_step ClickNextSlide pg = rerender (click_slide nextSlide pg)"
| "page_step ClickPrevSlide pg = rerender (click_slide prevSlide pg)"

fun page_run :: "page_event list \<Rightarrow> page \<Rightarrow> error + page" where
  "page_run [] pg = Inr pg"
| "page_run (e # es) pg = (case page_step e pg of Inl err \<Rightarrow> Inl err | Inr pg' \<Rightarrow> page_run es pg')"

definition initial_page :: "SiteContent \<Rightarrow> page" where
  "initial_page c =
     \<lparr>app = \<lparr>app_content = Some c, isAdmin = False, activeCategory = ''all'',
              selectedProjectId = None\<rparr>,
      detail = None\<rparr>"

section \<open>Admin / draft editor (components/AdminControl.tsx)\<close>

subsection \<open>Operations on the draft\<close>

text \<open>
  What the handlers read from the clock: \<^verbatim>\<open>Date.now()\<close> (milliseconds),
  \<^verbatim>\<open>new Date().getFullYear()\<close> and \<^verbatim>\<open>new Date().toISOString()\<close>.
\<close>

record clock =
  now :: nat
  fullYear :: nat
  isoString :: string

text \<open>
  \<^verbatim>\<open>Number.prototype.toString\<close> on a non-negative integer below \<open>10^21\<close>: its decimal
  digits.
\<close>

definition digit :: "nat \<Rightarrow> char" where
  "digit d = char_of (48 + d)"

fun toString_nat :: "nat \<Rightarrow> string" where
  "toString_nat n = (if n < 10 then [digit n] else toString_nat (n div 10) @ [digit (n mod 10)])"

declare toString_nat.simps [simp del]

text \<open>
  \<^verbatim>\<open>{ ...p, [field]: value }\<close>: the panel calls updateProject with these seven fields
  and updateExhibition with these four; it has no input for an identifier.
\<close>

datatype project_update =
    SetTitle string
  | SetCategory string
  | SetYear string
  | SetClient string
  | SetDescription string
  | SetThumbnail string
  | SetImages "ProjectImage list"

fun set_project_field :: "project_update \<Rightarrow> Project \<Rightarrow> Project" where
  "set_project_field (SetTitle v) p = p\<lparr>title := v\<rparr>"
| "set_project_field (SetCategory v) p = p\<lparr>category := v\<rparr>"
| "set_project_field (SetYear v) p = p\<lparr>year := v\<rparr>"
| "set_project_field (SetClient v) p = p\<lparr>client := Some v\<rparr>"
| "set_project_field (SetDescription v) p = p\<lparr>description := v\<rparr>"
| "set_project_field (SetThumbnail v) p = p\<lparr>thumbnail := v\<rparr>"
| "set_project_field (SetImages v) p = p\<lparr>images := v\<rparr>"

datatype exhibition_update =
    SetExTitle string
  | SetExDate string
  | SetExLocation string
  | SetExLink string

fun set_exhibition_field :: "exhibition_update \<Rightarrow> Exhibition \<Rightarrow> Exhibition" where
  "set_exhibition_field (SetExTitle v) e = e\<lparr>exhibition_title := v\<rparr>"
| "set_exhibition_field (SetExDate v) e = e\<lparr>exhibition_date := v\<rparr>"
| "set_exhibition_field (SetExLocation v) e = e\<lparr>exhibition_location := v\<rparr>"
| "set_exhibition_field (SetExLink v) e = e\<lparr>exhibition_link := Some v\<rparr>"

definition updateProject :: "string \<Rightarrow> project_update \<Rightarrow> SiteContent \<Rightarrow> SiteContent" where
  "updateProject i upd draft =
     draft\<lparr>projects := map (\<lambda>p. if project_id p = i then set_project_field upd p else p)
                             (projects draft)\<rparr>"

definition addProject :: "clock \<Rightarrow> SiteContent \<Rightarrow> SiteContent" where
  "addProject clk draft =
     (let newProject =
            \<lparr>project_id = toString_nat (now clk),
             title = ''New Project'',
             category = ''print'',
             thumbnail = ''https://picsum.photos/800/800'',
             description = ''Project description goes here.'',
             images = [],
             year = toString_nat (fullYear clk),
             client = None\<rparr>
      in draft\<lparr>projects := newProject # projects draft\<rparr>)"

text \<open>\<open>confirmed\<close> is the answer to \<^verbatim>\<open>confirm("Delete this project?")\<close>.\<close>

definition deleteProject :: "string \<Rightarrow> bool \<Rightarrow> SiteContent \<Rightarrow> SiteContent" where
  "deleteProject i confirmed draft =
     (if confirmed then draft\<lparr>projects := filter (\<lambda>p. project_id p \<noteq> i) (projects draft)\<rparr>
      else draft)"

text \<open>
  moveProject swaps by destructuring, \<^verbatim>\<open>[a[i], a[t]] = [a[t], a[i]]\<close>, on a copy of the
  array. Reading a JavaScript array past its end gives \<^verbatim>\<open>undefined\<close> and writing past
  its end extends it, so the copy is modelled as a list of optional entries (\<open>None\<close> is
  \<^verbatim>\<open>undefined\<close> or a hole). The result is a draft only when every entry of the new
  array is a project (\<open>those\<close>); otherwise there is none (\<open>None\<close>). The index is a
  position of the rendered list, a natural number.
\<close>

definition js_get :: "'a option list \<Rightarrow> nat \<Rightarrow> 'a option" where
  "js_get xs i = (if i < length xs then xs ! i else None)"

definition js_set :: "'a option list \<Rightarrow> nat \<Rightarrow> 'a option \<Rightarrow> 'a option list" where
  "js_set xs i v =
     (if i < length xs then xs[i := v] else xs @ replicate (i - length xs) None @ [v])"

datatype move_direction = Up | Down

definition moveProject :: "nat \<Rightarrow> move_direction \<Rightarrow> SiteContent \<Rightarrow> SiteContent option" where
  "moveProject index dir draft =
     (if (dir = Up \<and> index = 0) \<or>
         (dir = Down \<and> int index = int (length (projects draft)) - 1)
      then Some draft
      else
        (let newProjects = map Some (projects draft);
             targetIndex = (if dir = Up then index - 1 else index + 1);
             atTarget = js_get newProjects targetIndex;
             atIndex = js_get newProjects index;
             newProjects = js_set (js_set newProjects index atTarget) targetIndex atIndex
         in map_option (\<lambda>ps. draft\<lparr>projects := ps\<rparr>) (those newProjects)))"

text \<open>
  The gallery-image inputs of a project card are inline handlers; they close over the
  \<^verbatim>\<open>project\<close> and the position \<^verbatim>\<open>idx\<close> of the rendered list and end in a call of
  updateProject. Reading \<^verbatim>\<open>.alt\<close> or \<^verbatim>\<open>.url\<close> of an entry that is not there throws.
\<close>

definition imageUrlChange :: "Project \<Rightarrow> nat \<Rightarrow> string \<Rightarrow> SiteContent \<Rightarrow> error + SiteContent" where
  "imageUrlChange project idx v draft =
     (case array_get (images project) (int idx) of
        None \<Rightarrow> Inl TypeError
      | Some img \<Rightarrow>
          (let currentAlt = (case img of ImageUrl _ \<Rightarrow> Some [] | ImageObject _ a _ \<Rightarrow> a);
               newImages = (images project)[idx := ImageObject v currentAlt None]
           in Inr (updateProject (project_id project) (SetImages newImages) draft)))"

definition imageAltChange :: "Project \<Rightarrow> nat \<Rightarrow> string \<Rightarrow> SiteContent \<Rightarrow> error + SiteContent" where
  "imageAltChange project idx v draft =
     (case array_get (images project) (int idx) of
        None \<Rightarrow> Inl TypeError
      | Some img \<Rightarrow>
          (let currentUrl = (case img of ImageUrl u \<Rightarrow> u | ImageObject u _ _ \<Rightarrow> u);
               newImages = (images project)[idx := ImageObject currentUrl (Some v) None]
           in Inr (updateProject (project_id project) (SetImages newImages) draft)))"

definition imageRemove :: "Project \<Rightarrow> nat \<Rightarrow> SiteContent \<Rightarrow> SiteContent" where
  "imageRemove project idx draft =
     updateProject (project_id project)
       (SetImages (map snd (filter (\<lambda>(i, _). i \<noteq> idx) (enumerate 0 (images project))))) draft"

definition imageAdd :: "Project \<Rightarrow> SiteContent \<Rightarrow> SiteContent" where
  "imageAdd project draft =
     updateProject (project_id project)
       (SetImages (images project @ [ImageObject [] (Some []) None])) draft"

definition updateExhibition :: "string \<Rightarrow> exhibition_update \<Rightarrow> SiteContent \<Rightarrow> SiteContent" where
  "updateExhibition i upd draft =
     draft\<lparr>exhibitions := map (\<lambda>e. if exhibition_id e = i then set_exhibition_field upd e else e)
                                (exhibitions draft)\<rparr>"

definition addExhibition :: "clock \<Rightarrow> SiteContent \<Rightarrow> SiteContent" where
  "addExhibition clk draft =
     (let newEx =
            \<lparr>exhibition_id = toString_nat (now clk),
             exhibition_title = ''New Exhibition'',
             exhibition_date = takeWhile (\<lambda>c. c \<noteq> CHR ''T'') (isoString clk),
             exhibition_location = ''Location'',
             exhibition_link = None\<rparr>
      in draft\<lparr>exhibitions := newEx # exhibitions draft\<rparr>)"

definition deleteExhibition :: "string \<Rightarrow> bool \<Rightarrow> SiteContent \<Rightarrow> SiteContent" where
  "deleteExhibition i confirmed draft =
     (if confirmed
      then draft\<lparr>exhibitions := filter (\<lambda>e. exhibition_id e \<noteq> i) (exhibitions draft)\<rparr>
      else draft)"

text \<open>The three inputs of the settings tab.\<close>

definition setLogoUrl :: "string \<Rightarrow> SiteContent \<Rightarrow> SiteContent" where
  "setLogoUrl v draft = draft\<lparr>logoUrl := Some v\<rparr>"

definition setHeroLogoUrl :: "string \<Rightarrow> SiteContent \<Rightarrow> SiteContent" where
  "setHeroLogoUrl v draft = draft\<lparr>heroLogoUrl := Some v\<rparr>"

definition setContactEmail :: "string \<Rightarrow> SiteContent \<Rightarrow> SiteContent" where
  "setContactEmail v draft = draft\<lparr>contactEmail := v\<rparr>"

subsection \<open>The editor and its parent\<close>

text \<open>
  AdminControl with the parent state it is bound to: \<open>content\<close> is the prop (App's
  published content, which \<^verbatim>\<open>onUpdate = setContent\<close> replaces), \<open>isOpen\<close> and
  \<open>draftContent\<close> are the component's own cells, and \<open>alerts\<close> collects the messages
  passed to \<^verbatim>\<open>alert\<close>. The content type is a parameter: the TypeScript type of the draft
  is SiteContent, but an import stores whatever \<^verbatim>\<open>JSON.parse\<close> returned.
\<close>

record 'c editor =
  content :: 'c
  isOpen :: bool
  draftContent :: 'c
  alerts :: "string list"

text \<open>
  \<^verbatim>\<open>JSON.parse(JSON.stringify(content))\<close> builds a fresh copy equal to the content; a HOL
  value has no identity apart from its value, so the copy is the content itself. No
  handler of the panel writes into an object it shares: each builds new arrays and
  objects (\<^verbatim>\<open>map\<close>, \<^verbatim>\<open>filter\<close>, spread) and passes them to \<^verbatim>\<open>setDraftContent\<close>.
\<close>

definition handleOpen :: "'c editor \<Rightarrow> 'c editor" where
  "handleOpen s = s\<lparr>draftContent := content s, isOpen := True\<rparr>"

definition handleClose :: "'c editor \<Rightarrow> 'c editor" where
  "handleClose s = s\<lparr>content := draftContent s, isOpen := False\<rparr>"

text \<open>handleExport offers the serialised draft for download and changes no state.\<close>

definition handleExport :: "'c editor \<Rightarrow> 'c editor" where
  "handleExport s = s"

text \<open>
  handleImport, with the completion of the file read folded in. \<open>file\<close> is the text of
  the chosen file (\<open>None\<close>: no file was chosen); \<open>parse\<close> is \<^verbatim>\<open>JSON.parse\<close>, which throws
  a SyntaxError (\<open>Inl\<close>) on text that is not JSON. The guard \<^verbatim>\<open>if (e.target?.result)\<close>
  is false for the empty text. The \<^verbatim>\<open>try\<close>/\<^verbatim>\<open>catch\<close> is the case distinction on the
  result of \<open>parse\<close>.
\<close>

definition handleImport :: "(string \<Rightarrow> error + 'c) \<Rightarrow> string option \<Rightarrow> 'c editor \<Rightarrow> error + 'c editor" where
  "handleImport parse file s =
     (case file of
        None \<Rightarrow> Inr s
      | Some text \<Rightarrow>
          if text = [] then Inr s
          else
            (case parse text of
               Inr parsed \<Rightarrow> Inr (s\<lparr>draftContent := parsed\<rparr>)
             | Inl err \<Rightarrow> Inr (s\<lparr>alerts := alerts s @ [''Invalid JSON file'']\<rparr>)))"

subsection \<open>The controls of the panel\<close>

text \<open>
  One event per control. A card of the projects tab is named by its position \<open>k\<close> in
  \<^verbatim>\<open>draftContent.projects\<close>, an image row by the card and its position \<open>idx\<close>, an
  exhibition card by its position in \<^verbatim>\<open>draftContent.exhibitions\<close>; delete events carry
  the answer to the confirmation, add events the clock reading, an import the text of
  the file.
\<close>

datatype admin_event =
    Open
  | Close
  | Export
  | Import "string option"
  | SetLogoUrl string
  | SetHeroLogoUrl string
  | SetContactEmail string
  | AddProject clock
  | UpdateProject nat project_update
  | DeleteProject nat bool
  | MoveProject nat move_direction
  | ImageUrlChange nat nat string
  | ImageAltChange nat nat string
  | ImageRemove nat nat
  | ImageAdd nat
  | AddExhibition clock
  | UpdateExhibition nat exhibition_update
  | DeleteExhibition nat bool

text \<open>
  What a mutation control does to the draft. A control of a card that the draft does
  not have is not on the screen: nothing happens. A draft whose project array holds an
  undefined entry makes the next render throw at \<^verbatim>\<open>project.id\<close>.
\<close>

fun draft_op :: "admin_event \<Rightarrow> SiteContent \<Rightarrow> error + SiteContent" where
  "draft_op (SetLogoUrl v) d = Inr (setLogoUrl v d)"
| "draft_op (SetHeroLogoUrl v) d = Inr (setHeroLogoUrl v d)"
| "draft_op (SetContactEmail v) d = Inr (setContactEmail v d)"
| "draft_op (AddProject clk) d = Inr (addProject clk d)"
| "draft_op (UpdateProject k upd) d =
     (if k < length (projects d) then Inr (updateProject (project_id (projects d ! k)) upd d)
      else Inr d)"
| "draft_op (DeleteProject k confirmed) d =
     (if k < length (projects d) then Inr (deleteProject (project_id (projects d ! k)) confirmed d)
      else Inr d)"
| "draft_op (MoveProject k dir) d =
     (if k < length (projects d)
      then (case moveProject k dir d of None \<Rightarrow> Inl TypeError | Some d' \<Rightarrow> Inr d')
      else Inr d)"
| "draft_op (ImageUrlChange k idx v) d =
     (if k < length (projects d) \<and> idx < length (images (projects d ! k))
      then imageUrlChange (projects d ! k) idx v d else Inr d)"
| "draft_op (ImageAltChange k idx v) d =
     (if k < length (projects d) \<and> idx < length (images (projects d ! k))
      then imageAltChange (projects d ! k) idx v d else Inr d)"
| "draft_op (ImageRemove k idx) d =
     (if k < length (projects d) \<and> idx < length (images (projects d ! k))
      then Inr (imageRemove (projects d ! k) idx d) else Inr d)"
| "draft_op (ImageAdd k) d =
     (if k < length (projects d) then Inr (imageAdd (projects d ! k) d) else Inr d)"
| "draft_op (AddExhibition clk) d = Inr (addExhibition clk d)"
| "draft_op (UpdateExhibition k upd) d =
     (if k < length (exhibitions d)
      then Inr (updateExhibition (exhibition_id (exhibitions d ! k)) upd d) else Inr d)"
| "draft_op (DeleteExhibition k confirmed) d =
     (if k < length (exhibitions d)
      then Inr (deleteExhibition (exhibition_id (exhibitions d ! k)) confirmed d) else Inr d)"
| "draft_op Open d = Inr d"
| "draft_op Close d = Inr d"
| "draft_op Export d = Inr d"
| "draft_op (Import file) d = Inr d"

text \<open>
  One step of the editor. While the panel is closed only the open button is rendered,
  while it is open everything but the open button; a file read that was started may
  complete in either state. A mutation control passes its result to
  \<^verbatim>\<open>setDraftContent\<close>; only handleClose calls \<^verbatim>\<open>onUpdate\<close>.
\<close>

fun admin_step :: "(string \<Rightarrow> error + SiteContent) \<Rightarrow> admin_event \<Rightarrow> SiteContent editor \<Rightarrow> error + SiteContent editor" where
  "admin_step parse Open s = Inr (if isOpen s then s else handleOpen s)"
| "admin_step parse Close s = Inr (if isOpen s then handleClose s else s)"
| "admin_step parse Export s = Inr (if isOpen s then handleExport s else s)"
| "admin_step parse (Import file) s = handleImport parse file s"
| "admin_step parse ev s =
     (if isOpen s
      then (case draft_op ev (draftContent s) of
              Inl e \<Rightarrow> Inl e
            | Inr d \<Rightarrow> Inr (s\<lparr>draftContent := d\<rparr>))
      else Inr s)"

text \<open>
  A run of the editor: the states it goes through, the starting state first. An
  exception ends the run; the states reached before it stay.
\<close>

fun admin_trace :: "(string \<Rightarrow> error + SiteContent) \<Rightarrow> admin_event list \<Rightarrow> SiteContent editor \<Rightarrow> SiteContent editor list" where
  "admin_trace parse [] s = [s]"
| "admin_trace parse (ev # evs) s =
     s # (case admin_step parse ev s of Inl e \<Rightarrow> [] | Inr s' \<Rightarrow> admin_trace parse evs s')"

text \<open>Identifiers are unique within their collection.\<close>

definition ids_unique :: "SiteContent \<Rightarrow> bool" where
  "ids_unique c =
     (distinct (map project_id (projects c)) \<and> distinct (map exhibition_id (exhibitions c)))"

section \<open>JSON texts\<close>

text \<open>
  \<^verbatim>\<open>JSON.parse\<close> belongs to the platform, not to the repository; handleImport takes it
  as a parameter. To run an import on a concrete file, this section gives a parser of
  the JSON grammar (ECMA-404): it accepts exactly the well-formed texts and returns the
  syntax tree, with a number kept as its literal and a string as the text between its
  quotes (escapes checked, not decoded). A text is a list of characters.

  The parser descends with fuel, which every call lowers by one. Between two calls
  of a chain at least one character is consumed on every second step (a bracket, a
  comma, a key), so no chain is longer than twice the text plus one, and \<open>JSON_parse\<close>
  starts with \<open>2 * length text + 2\<close>.
\<close>

datatype json =
    JNull
  | JBool bool
  | JNumber string
  | JString string
  | JArray "json list"
  | JObject "(string \<times> json) list"

definition is_ws :: "char \<Rightarrow> bool" where
  "is_ws c = (c = CHR 0x20 \<or> c = CHR 0x09 \<or> c = CHR 0x0A \<or> c = CHR 0x0D)"

definition skip_ws :: "string \<Rightarrow> string" where
  "skip_ws cs = dropWhile is_ws cs"

definition is_digit :: "char \<Rightarrow> bool" where
  "is_digit c = (48 \<le> (of_char c :: nat) \<and> (of_char c :: nat) \<le> 57)"

definition is_hex :: "char \<Rightarrow> bool" where
  "is_hex c =
     (let n = (of_char c :: nat)
      in (48 \<le> n \<and> n \<le> 57) \<or> (65 \<le> n \<and> n \<le> 70) \<or> (97 \<le> n \<and> n \<le> 102))"

text \<open>
  The characters of a string after its opening quote, up to the closing quote: no
  control character, and after a backslash one of \<^verbatim>\<open>" \ / b f n r t\<close> or \<^verbatim>\<open>u\<close> with four
  hexadecimal digits.
\<close>

fun parse_chars :: "string \<Rightarrow> (string \<times> string) option" where
  "parse_chars [] = None"
| "parse_chars (c # cs) =
     (if c = CHR 0x22 then Some ([], cs)
      else if c = CHR 0x5C then
        (case cs of
           [] \<Rightarrow> None
         | e # rest \<Rightarrow>
             if e \<in> set [CHR 0x22, CHR 0x5C, CHR ''/'', CHR ''b'', CHR ''f'', CHR ''n'', CHR ''r'', CHR ''t'']
             then map_option (\<lambda>(s, r). (c # e # s, r)) (parse_chars rest)
             else if e = CHR ''u'' \<and> length rest \<ge> 4 \<and> list_all is_hex (take 4 rest)
             then map_option (\<lambda>(s, r). (c # e # take 4 rest @ s, r)) (parse_chars (drop 4 rest))
             else None)
      else if (of_char c :: nat) < 32 then None
      else map_option (\<lambda>(s, r). (c # s, r)) (parse_chars cs))"

text \<open>
  A number: an optional minus, \<open>0\<close> or a digit sequence without leading zero, an optional
  fraction, an optional exponent.
\<close>

definition parse_digits :: "string \<Rightarrow> (string \<times> string) option" where
  "parse_digits cs =
     (if takeWhile is_digit cs = [] then None
      else Some (takeWhile is_digit cs, dropWhile is_digit cs))"

definition parse_int_part :: "string \<Rightarrow> (string \<times> string) option" where
  "parse_int_part cs =
     (case cs of
        [] \<Rightarrow> None
      | c # r \<Rightarrow> if c = CHR ''0'' then Some ([c], r) else parse_digits cs)"

definition parse_fraction :: "string \<Rightarrow> (string \<times> string) option" where
  "parse_fraction cs =
     (case cs of
        [] \<Rightarrow> Some ([], cs)
      | c # r \<Rightarrow>
          if c = CHR ''.'' then map_option (\<lambda>(ds, r'). (c # ds, r')) (parse_digits r)
          else Some ([], cs))"

definition parse_exponent :: "string \<Rightarrow> (string \<times> string) option" where
  "parse_exponent cs =
     (case cs of
        [] \<Rightarrow> Some ([], cs)
      | c # r \<Rightarrow>
          if c = CHR ''e'' \<or> c = CHR ''E'' then
            (case r of
               [] \<Rightarrow> None
             | sg # r' \<Rightarrow>
                 if sg = CHR ''+'' \<or> sg = CHR ''-''
                 then map_option (\<lambda>(ds, r''). (c # sg # ds, r'')) (parse_digits r')
                 else map_option (\<lambda>(ds, r''). (c # ds, r'')) (parse_digits r))
          else Some ([], cs))"

definition parse_number :: "string \<Rightarrow> (string \<times> string) option" where
  "parse_number cs =
     (let (sign, r0) = (case cs of [] \<Rightarrow> ([], cs)
                        | c # r \<Rightarrow> if c = CHR ''-'' then ([c], r) else ([], cs))
      in case parse_int_part r0 of
           None \<Rightarrow> None
         | Some (ip, r1) \<Rightarrow>
             (case parse_fraction r1 of
                None \<Rightarrow> None
              | Some (fp, r2) \<Rightarrow>
                  (case parse_exponent r2 of
                     None \<Rightarrow> None
                   | Some (ep, r3) \<Rightarrow> Some (sign @ ip @ fp @ ep, r3))))"

fun parse_value :: "nat \<Rightarrow> string \<Rightarrow> (json \<times> string) option"
  and parse_elements :: "nat \<Rightarrow> string \<Rightarrow> (json list \<times> string) option"
  and parse_members :: "nat \<Rightarrow> string \<Rightarrow> ((string \<times> json) list \<times> string) option" where
  "parse_value 0 cs = None"
| "parse_value (Suc n) cs =
     (case skip_ws cs of
        [] \<Rightarrow> None
      | c # r \<Rightarrow>
          if c = CHR ''{'' then
            (case skip_ws r of
               [] \<Rightarrow> None
             | c' # r' \<Rightarrow>
                 if c' = CHR ''}'' then Some (JObject [], r')
                 else map_option (\<lambda>(ms, r''). (JObject ms, r'')) (parse_members n r))
          else if c = CHR ''['' then
            (case skip_ws r of
               [] \<Rightarrow> None
             | c' # r' \<Rightarrow>
                 if c' = CHR '']'' then Some (JArray [], r')
                 else map_option (\<lambda>(vs, r''). (JArray vs, r'')) (parse_elements n r))
          else if c = CHR 0x22 then map_option (\<lambda>(s, r'). (JString s, r')) (parse_chars r)
          else if c = CHR ''-'' \<or> is_digit c
          then map_option (\<lambda>(s, r'). (JNumber s, r')) (parse_number (c # r))
          else if prefix ''true'' (c # r) then Some (JBool True, drop 4 (c # r))
          else if prefix ''false'' (c # r) then Some (JBool False, drop 5 (c # r))
          else if prefix ''null'' (c # r) then Some (JNull, drop 4 (c # r))
          else None)"
| "parse_elements 0 cs = None"
| "parse_elements (Suc n) cs =
     (case parse_value n cs of
        None \<Rightarrow> None
      | Some (v, r) \<Rightarrow>
          (case skip_ws r of
             [] \<Rightarrow> None
           | c # r' \<Rightarrow>
               if c = CHR '','' then map_option (\<lambda>(vs, r''). (v # vs, r'')) (parse_elements n r')
               else if c = CHR '']'' then Some ([v], r')
               else None))"
| "parse_members 0 cs = None"
| "parse_members (Suc n) cs =
     (case skip_ws cs of
        [] \<Rightarrow> None
      | q # r \<Rightarrow>
          if q \<noteq> CHR 0x22 then None
          else
            (case parse_chars r of
               None \<Rightarrow> None
             | Some (k, r1) \<Rightarrow>
                 (case skip_ws r1 of
                    [] \<Rightarrow> None
                  | col # r2 \<Rightarrow>
                      if col \<noteq> CHR '':'' then None
                      else
                        (case parse_value n r2 of
                           None \<Rightarrow> None
                         | Some (v, r3) \<Rightarrow>
                             (case skip_ws r3 of
                                [] \<Rightarrow> None
                              | c # r4 \<Rightarrow>
                                  if c = CHR '','' then
                                    map_option (\<lambda>(ms, r5). ((k, v) # ms, r5)) (parse_members n r4)
                                  else if c = CHR ''}'' then Some ([(k, v)], r4)
                                  else None)))))"

definition JSON_parse :: "string \<Rightarrow> error + json" where
  "JSON_parse text =
     (case parse_value (2 * length text + 2) text of
        None \<Rightarrow> Inl SyntaxError
      | Some (v, r) \<Rightarrow> if skip_ws r = [] then Inr v else Inl SyntaxError)"

section \<open>Sample data\<close>

text \<open>
  Two projects, the first with a gallery of two images and the second with none, and
  the content that holds them; the concrete inputs of the examples below.
\<close>

definition project_a :: Project where
  "project_a =
     \<lparr>project_id = ''a'', title = ''Poster'', category = ''print'',
      thumbnail = ''a.png'', description = ''First'',
      images = [ImageUrl ''a1.png'', ImageObject ''a2.png'' (Some ''second'') None],
      year = ''2024'', client = None\<rparr>"

definition project_b :: Project where
  "project_b =
     \<lparr>project_id = ''b'', title = ''Website'', category = ''digital'',
      thumbnail = ''b.png'', description = ''Second'',
      images = [], year = ''2025'', client = Some ''Studio''\<rparr>"

definition sample_content :: SiteContent where
  "sample_content =
     \<lparr>logoUrl = None, heroLogoUrl = None, projects = [project_a, project_b],
      exhibitions = [], contactEmail = ''mail@example.com''\<rparr>"

definition sample_app :: app_state where
  "sample_app =
     \<lparr>app_content = Some sample_content, isAdmin = False, activeCategory = ''print'',
      selectedProjectId = Some ''a''\<rparr>"

definition three_slides :: "Slide list" where
  "three_slides =
     [\<lparr>url = ''1.png'', alt = None, slide_type = Image\<rparr>,
      \<lparr>url = ''2.png'', alt = None, slide_type = Image\<rparr>,
      \<lparr>url = ''3.png'', alt = None, slide_type = Image\<rparr>]"

definition sample_editor :: "SiteContent editor" where
  "sample_editor =
     \<lparr>content = sample_content, isOpen = False, draftContent = sample_content, alerts = []\<rparr>"

text \<open>An open editor whose contents are JSON values, as an import leaves them.\<close>

definition sample_json_editor :: "json editor" where
  "sample_json_editor =
     \<lparr>content = JObject [(''projects'', JArray [])], isOpen = True,
      draftContent = JObject [(''projects'', JArray [])], alerts = []\<rparr>"

text \<open>A clock reading: 14 November 2023, 22:13:20 UTC.\<close>

definition sample_clock :: clock where
  "sample_clock = \<lparr>now = 1700000000000, fullYear = 2023, isoString = ''2023-11-14T22:13:20.000Z''\<rparr>"

text \<open>The shell showing all categories of the sample content with project \<open>i\<close> selected.\<close>

definition viewing :: "string \<Rightarrow> app_state" where
  "viewing i =
     \<lparr>app_content = Some sample_content, isAdmin = False, activeCategory = ''all'',
      selectedProjectId = Some i\<rparr>"

section \<open>Properties of the slideshow\<close>

lemma smod_nonneg: "0 \<le> a \<Longrightarrow> 0 < b \<Longrightarrow> a smod b = a mod (b::int)"
  by (cases "a = 0") (simp_all add: smod_int_alt_def)

lemma nextSlide_funpow:
  assumes "sl \<noteq> []" "0 \<le> currentSlide g" "currentSlide g < int (length sl)"
  shows "(nextSlide sl ^^ k) g = g\<lparr>currentSlide := (currentSlide g + int k) mod int (length sl)\<rparr>"
proof (induction k)
  case 0
  from assms show ?case by simp
next
  case (Suc k)
  from assms have pos: "0 < int (length sl)" by simp
  have "0 \<le> (currentSlide g + int k) mod int (length sl) + 1"
    using pos by (simp add: add_nonneg_nonneg)
  then have "((currentSlide g + int k) mod int (length sl) + 1) smod int (length sl)
      = ((currentSlide g + int k) mod int (length sl) + 1) mod int (length sl)"
    using pos by (rule smod_nonneg)
  also have "\<dots> = (currentSlide g + int k + 1) mod int (length sl)"
    by (rule mod_add_left_eq)
  also have "\<dots> = (currentSlide g + int (Suc k)) mod int (length sl)"
    by (simp add: ac_simps)
  finally show ?case
    using Suc.IH by (simp add: nextSlide_def)
qed

lemma prevSlide_funpow:
  assumes "sl \<noteq> []" "0 \<le> currentSlide g" "currentSlide g < int (length sl)"
  shows "(prevSlide sl ^^ k) g = g\<lparr>currentSlide := (currentSlide g - int k) mod int (length sl)\<rparr>"
proof (induction k)
  case 0
  from assms show ?case by simp
next
  case (Suc k)
  from assms have pos: "0 < int (length sl)" by simp
  let ?m = "(currentSlide g - int k) mod int (length sl)"
  have "0 \<le> ?m" using pos by simp
  then have "0 \<le> ?m - 1 + int (length sl)" using pos by linarith
  then have "(?m - 1 + int (length sl)) smod int (length sl)
      = (?m - 1 + int (length sl)) mod int (length sl)"
    using pos by (rule smod_nonneg)
  also have "\<dots> = (?m - 1) mod int (length sl)" by simp
  also have "\<dots> = (currentSlide g - int k - 1) mod int (length sl)"
    by (simp add: mod_diff_left_eq)
  also have "\<dots> = (currentSlide g - int (Suc k)) mod int (length sl)"
    by (simp add: algebra_simps)
  finally show ?case
    using Suc.IH by (simp add: prevSlide_def)
qed

text \<open>
  Claim C3. For a slide list of length \<open>N \<ge> 1\<close> and a current index \<open>i\<close> in \<open>[0, N)\<close>,
  \<^verbatim>\<open>nextSlide\<close> yields \<open>(i + 1) mod N\<close> and \<^verbatim>\<open>prevSlide\<close> yields \<open>(i - 1 + N) mod N\<close>;
  the last index steps to \<open>0\<close> under next and index \<open>0\<close> steps to the last under prev;
  and \<open>N\<close> applications of either handler give back the state they started from.
\<close>

theorem slide_wraparound_cycle:
  assumes "sl \<noteq> []" and "0 \<le> currentSlide g" and "currentSlide g < int (length sl)"
  shows "currentSlide (nextSlide sl g) = (currentSlide g + 1) mod int (length sl)
       \<and> currentSlide (prevSlide sl g) = (currentSlide g - 1 + int (length sl)) mod int (length sl)
       \<and> (if currentSlide g = int (length sl) - 1 then currentSlide (nextSlide sl g) = 0 else True)
       \<and> (if currentSlide g = 0 then currentSlide (prevSlide sl g) = int (length sl) - 1 else True)
       \<and> (nextSlide sl ^^ length sl) g = g
       \<and> (prevSlide sl ^^ length sl) g = g"
proof -
  from assms have pos: "0 < int (length sl)" by simp
  have n: "currentSlide (nextSlide sl g) = (currentSlide g + 1) mod int (length sl)"
    using assms pos by (simp add: nextSlide_def smod_nonneg)
  have p: "currentSlide (prevSlide sl g) = (currentSlide g - 1 + int (length sl)) mod int (length sl)"
    using assms pos by (simp add: prevSlide_def smod_nonneg)
  have last: "currentSlide g = int (length sl) - 1 \<Longrightarrow> currentSlide (nextSlide sl g) = 0"
    using n by simp
  have first: "currentSlide (prevSlide sl g) = int (length sl) - 1" if z: "currentSlide g = 0"
  proof -
    have "currentSlide g - 1 + int (length sl) = int (length sl) - 1" using z by simp
    moreover have "(int (length sl) - 1) mod int (length sl) = int (length sl) - 1"
      using pos by (intro mod_pos_pos_trivial) simp_all
    ultimately show ?thesis using p by (simp only:)
  qed
  have cn: "(nextSlide sl ^^ length sl) g = g"
    using nextSlide_funpow [OF assms, of "length sl"] assms by simp
  have cp: "(prevSlide sl ^^ length sl) g = g"
    using prevSlide_funpow [OF assms, of "length sl"] assms by simp
  from n p last first cn cp show ?thesis by simp
qed

theorem slide_wraparound_cycle_witness:
  "three_slides \<noteq> []
   \<and> 0 \<le> currentSlide (initial_gallery\<lparr>currentSlide := 2\<rparr>)
   \<and> currentSlide (initial_gallery\<lparr>currentSlide := 2\<rparr>) < int (length three_slides)
   \<and> currentSlide (nextSlide three_slides (initial_gallery\<lparr>currentSlide := 2\<rparr>)) = 0
   \<and> currentSlide (prevSlide three_slides (initial_gallery\<lparr>currentSlide := 2\<rparr>)) = 1
   \<and> (nextSlide three_slides ^^ length three_slides) (initial_gallery\<lparr>currentSlide := 2\<rparr>)
       = initial_gallery\<lparr>currentSlide := 2\<rparr>
   \<and> (prevSlide three_slides ^^ length three_slides) (initial_gallery\<lparr>currentSlide := 2\<rparr>)
       = initial_gallery\<lparr>currentSlide := 2\<rparr>"
proof -
  have h1: "three_slides \<noteq> []" by (simp add: three_slides_def)
  have h2: "0 \<le> currentSlide (initial_gallery\<lparr>currentSlide := 2\<rparr>)" by simp
  have h3: "currentSlide (initial_gallery\<lparr>currentSlide := 2\<rparr>) < int (length three_slides)"
    by (simp add: three_slides_def)
  have len: "int (length three_slides) = 3" by (simp add: three_slides_def)
  from slide_wraparound_cycle [OF h1 h2 h3] h1 h2 h3 show ?thesis
    by (simp add: len)
qed

section \<open>Properties of filtering and project navigation\<close>

lemma findIndex_range: "- 1 \<le> findIndex P xs \<and> findIndex P xs < int (length xs)"
  by (induction xs) (auto simp: Let_def)

lemma findIndex_found:
  "findIndex P xs \<noteq> - 1 \<Longrightarrow> 0 \<le> findIndex P xs \<and> P (xs ! nat (findIndex P xs))"
proof (induction xs)
  case Nil
  then show ?case by simp
next
  case (Cons x xs)
  show ?case
  proof (cases "P x")
    case True
    then show ?thesis by simp
  next
    case False
    with Cons.prems have ne: "findIndex P xs \<noteq> - 1" by (auto simp: Let_def split: if_splits)
    with Cons.IH have ih: "0 \<le> findIndex P xs" "P (xs ! nat (findIndex P xs))" by simp_all
    from False ne ih show ?thesis by (simp add: Let_def nat_add_distrib)
  qed
qed

lemma findIndex_none: "findIndex P xs = - 1 \<longleftrightarrow> (\<forall>x \<in> set xs. \<not> P x)"
proof (induction xs)
  case Nil
  then show ?case by simp
next
  case (Cons x xs)
  have "- 1 \<le> findIndex P xs" using findIndex_range [of P xs] by simp
  then have "findIndex P xs + 1 \<noteq> - 1" by simp
  with Cons show ?case by (auto simp: Let_def)
qed

lemma findIndex_distinct:
  "distinct (map f xs) \<Longrightarrow> k < length xs \<Longrightarrow> findIndex (\<lambda>x. f x = f (xs ! k)) xs = int k"
proof (induction xs arbitrary: k)
  case Nil
  then show ?case by simp
next
  case (Cons x xs)
  show ?case
  proof (cases k)
    case 0
    then show ?thesis by simp
  next
    case (Suc j)
    with Cons.prems have j: "j < length xs" and d: "distinct (map f xs)" by simp_all
    from Cons.prems Suc j have "f x \<noteq> f (xs ! j)" by (auto simp: image_iff)
    with Cons.IH [OF d j] Suc show ?thesis by (simp add: Let_def)
  qed
qed

text \<open>
  Claim C5. With content loaded, a selected category other than \<^verbatim>\<open>all\<close> yields exactly
  the projects of that category, in their original order (the filtered list is a
  subsequence of the project list and holds those and only those projects); \<^verbatim>\<open>all\<close>
  yields the whole project list, order unchanged.
\<close>

theorem filteredProjects_by_category:
  assumes "app_content st = Some c"
  shows "(activeCategory st \<noteq> ''all'' \<longrightarrow>
            filteredProjects st = filter (\<lambda>p. category p = activeCategory st) (projects c)
          \<and> subseq (filteredProjects st) (projects c)
          \<and> set (filteredProjects st) = {p \<in> set (projects c). category p = activeCategory st})
       \<and> (activeCategory st = ''all'' \<longrightarrow> filteredProjects st = projects c)"
  using assms by (auto simp: filteredProjects_def)

theorem filteredProjects_by_category_witness:
  "app_content sample_app = Some sample_content
   \<and> activeCategory sample_app \<noteq> ''all''
   \<and> filteredProjects sample_app = [project_a]
   \<and> filteredProjects (sample_app\<lparr>activeCategory := ''all''\<rparr>) = [project_a, project_b]"
proof -
  have h: "app_content sample_app = Some sample_content" by (simp add: sample_app_def)
  have h': "app_content (sample_app\<lparr>activeCategory := ''all''\<rparr>) = Some sample_content"
    by (simp add: sample_app_def)
  from filteredProjects_by_category [OF h] filteredProjects_by_category [OF h'] h
  show ?thesis
    by (simp add: sample_app_def sample_content_def project_a_def project_b_def)
qed

lemma navigate_index_in_range:
  assumes "selectedProjectIndex st \<noteq> - 1"
  shows "0 \<le> selectedProjectIndex st"
    and "selectedProjectIndex st < int (length (filteredProjects st))"
    and "Some (project_id (filteredProjects st ! nat (selectedProjectIndex st))) = selectedProjectId st"
  using assms findIndex_found [of "\<lambda>p. Some (project_id p) = selectedProjectId st" "filteredProjects st"]
    findIndex_range [of "\<lambda>p. Some (project_id p) = selectedProjectId st" "filteredProjects st"]
  by (simp_all add: selectedProjectIndex_def)

lemma handleNavigate_next:
  assumes "selectedProjectIndex st \<noteq> - 1"
  shows "handleNavigate Next st =
           Inr (st\<lparr>selectedProjectId :=
                  Some (project_id (filteredProjects st !
                    nat ((selectedProjectIndex st + 1) mod int (length (filteredProjects st)))))\<rparr>)"
proof -
  let ?i = "selectedProjectIndex st" and ?n = "int (length (filteredProjects st))"
  from navigate_index_in_range [OF assms] have r: "0 \<le> ?i" "?i < ?n" by simp_all
  then have ne: "filteredProjects st \<noteq> []" by auto
  show ?thesis
  proof (cases "?i + 1 = ?n")
    case True
    then have "(?i + 1) mod ?n = 0" by simp
    with True r ne assms show ?thesis
      by (simp add: handleNavigate_def array_get_def Let_def)
  next
    case False
    with r have lt: "?i + 1 < ?n" by simp
    with r have "(?i + 1) mod ?n = ?i + 1" by simp
    with lt r assms show ?thesis
      by (simp add: handleNavigate_def array_get_def Let_def)
  qed
qed

lemma handleNavigate_prev:
  assumes "selectedProjectIndex st \<noteq> - 1"
  shows "handleNavigate Prev st =
           Inr (st\<lparr>selectedProjectId :=
                  Some (project_id (filteredProjects st !
                    nat ((selectedProjectIndex st - 1) mod int (length (filteredProjects st)))))\<rparr>)"
proof -
  let ?i = "selectedProjectIndex st" and ?n = "int (length (filteredProjects st))"
  from navigate_index_in_range [OF assms] have r: "0 \<le> ?i" "?i < ?n" by simp_all
  then have npos: "0 < ?n" by linarith
  then have ne: "filteredProjects st \<noteq> []" by auto
  show ?thesis
  proof (cases "?i = 0")
    case True
    have "(- 1) mod ?n = ?n - 1"
      using npos by (rule zmod_minus1)
    with True r ne assms show ?thesis
      by (simp add: handleNavigate_def array_get_def Let_def)
  next
    case False
    with r have ge: "0 \<le> ?i - 1" "?i - 1 < ?n" by simp_all
    then have "(?i - 1) mod ?n = ?i - 1" by simp
    with ge r assms show ?thesis
      by (simp add: handleNavigate_def array_get_def Let_def)
  qed
qed

lemma filteredProjects_selected:
  "filteredProjects (st\<lparr>selectedProjectId := x\<rparr>) = filteredProjects st"
  by (simp add: filteredProjects_def split: option.split)

lemma selectedProjectIndex_after_select:
  assumes "distinct (map project_id (filteredProjects st))" and "k < length (filteredProjects st)"
  shows "selectedProjectIndex (st\<lparr>selectedProjectId := Some (project_id (filteredProjects st ! k))\<rparr>)
         = int k"
proof -
  have "(\<lambda>p. Some (project_id p) = Some (project_id (filteredProjects st ! k)))
        = (\<lambda>p. project_id p = project_id (filteredProjects st ! k))" by auto
  with findIndex_distinct [OF assms] show ?thesis
    by (simp add: selectedProjectIndex_def filteredProjects_selected)
qed

text \<open>
  Claim C6. Project navigation works on the filtered list. When the selected project
  stands at position \<open>i\<close> of the filtered list of length \<open>n\<close>, handleNavigate does not
  throw; next selects the identifier of the entry at \<open>(i + 1) mod n\<close> and prev that of
  the entry at \<open>(i - 1) mod n\<close>, so both ends wrap. With identifiers that are distinct
  in the filtered list the selected position itself becomes \<open>(i + 1) mod n\<close> and
  \<open>(i - 1) mod n\<close>. With exactly one project in the filtered list next (and prev) gives
  back the state unchanged: the same project stays selected.
\<close>

theorem handleNavigate_filtered_wraparound:
  assumes "selectedProjectIndex st = i" and "i \<noteq> - 1" and "n = int (length (filteredProjects st))"
  shows "0 \<le> i \<and> i < n
       \<and> handleNavigate Next st =
           Inr (st\<lparr>selectedProjectId := Some (project_id (filteredProjects st ! nat ((i + 1) mod n)))\<rparr>)
       \<and> handleNavigate Prev st =
           Inr (st\<lparr>selectedProjectId := Some (project_id (filteredProjects st ! nat ((i - 1) mod n)))\<rparr>)
       \<and> (distinct (map project_id (filteredProjects st)) \<longrightarrow>
            (\<forall>st'. handleNavigate Next st = Inr st' \<longrightarrow> selectedProjectIndex st' = (i + 1) mod n)
          \<and> (\<forall>st'. handleNavigate Prev st = Inr st' \<longrightarrow> selectedProjectIndex st' = (i - 1) mod n))
       \<and> (n = 1 \<longrightarrow> handleNavigate Next st = Inr st \<and> handleNavigate Prev st = Inr st)"
proof -
  from assms have ne: "selectedProjectIndex st \<noteq> - 1" by simp
  from navigate_index_in_range [OF ne] assms
  have r: "0 \<le> i" "i < n"
    and sel: "Some (project_id (filteredProjects st ! nat i)) = selectedProjectId st"
    by simp_all
  have nx: "handleNavigate Next st =
      Inr (st\<lparr>selectedProjectId := Some (project_id (filteredProjects st ! nat ((i + 1) mod n)))\<rparr>)"
    using handleNavigate_next [OF ne] assms by simp
  have pv: "handleNavigate Prev st =
      Inr (st\<lparr>selectedProjectId := Some (project_id (filteredProjects st ! nat ((i - 1) mod n)))\<rparr>)"
    using handleNavigate_prev [OF ne] assms by simp
  from r have npos: "0 < n" by simp
  have in_range: "nat (j mod n) < length (filteredProjects st)" for j
    using npos assms(3) by (simp add: nat_less_iff)
  have idx: "selectedProjectIndex
       (st\<lparr>selectedProjectId := Some (project_id (filteredProjects st ! nat (j mod n)))\<rparr>) = j mod n"
    if "distinct (map project_id (filteredProjects st))" for j
    using selectedProjectIndex_after_select [OF that in_range [of j]] npos by simp
  have one: "handleNavigate Next st = Inr st \<and> handleNavigate Prev st = Inr st" if "n = 1"
  proof -
    from that r have i0: "i = 0" by simp
    with that have "(i + 1) mod n = 0" "(i - 1) mod n = 0" by simp_all
    with nx pv sel i0 show ?thesis by simp
  qed
  from r nx pv idx one show ?thesis by simp
qed

theorem handleNavigate_filtered_wraparound_witness:
  "selectedProjectIndex sample_app = 0
   \<and> (0::int) \<noteq> - 1
   \<and> (1::int) = int (length (filteredProjects sample_app))
   \<and> distinct (map project_id (filteredProjects sample_app))
   \<and> handleNavigate Next sample_app = Inr sample_app
   \<and> handleNavigate Prev sample_app = Inr sample_app
   \<and> selectedProjectIndex (sample_app\<lparr>activeCategory := ''all'', selectedProjectId := Some ''b''\<rparr>) = 1
   \<and> handleNavigate Next (sample_app\<lparr>activeCategory := ''all'', selectedProjectId := Some ''b''\<rparr>)
       = Inr (sample_app\<lparr>activeCategory := ''all'', selectedProjectId := Some ''a''\<rparr>)"
proof -
  have fp: "filteredProjects sample_app = [project_a]"
    by (simp add: filteredProjects_def sample_app_def sample_content_def project_a_def project_b_def)
  have h1: "selectedProjectIndex sample_app = 0"
    by (simp add: selectedProjectIndex_def fp) (simp add: sample_app_def project_a_def)
  have h3: "(1::int) = int (length (filteredProjects sample_app))" by (simp add: fp)
  let ?st = "sample_app\<lparr>activeCategory := ''all'', selectedProjectId := Some ''b''\<rparr>"
  have fp2: "filteredProjects ?st = [project_a, project_b]"
    by (simp add: filteredProjects_def sample_app_def sample_content_def)
  have g1: "selectedProjectIndex ?st = 1"
    by (simp add: selectedProjectIndex_def fp2) (simp add: project_a_def project_b_def)
  have g3: "(2::int) = int (length (filteredProjects ?st))" by (simp add: fp2)
  have d: "distinct (map project_id (filteredProjects sample_app))" by (simp add: fp)
  have h2: "(0::int) \<noteq> - 1" and g2: "(1::int) \<noteq> - 1" by simp_all
  note one = handleNavigate_filtered_wraparound [OF h1 h2 h3]
  note two = handleNavigate_filtered_wraparound [OF g1 g2 g3]
  from one have a: "handleNavigate Next sample_app = Inr sample_app"
    "handleNavigate Prev sample_app = Inr sample_app" by blast+
  from two have "handleNavigate Next ?st =
      Inr (?st\<lparr>selectedProjectId := Some (project_id (filteredProjects ?st ! nat ((1 + 1) mod 2)))\<rparr>)"
    by blast
  then have b: "handleNavigate Next ?st =
      Inr (sample_app\<lparr>activeCategory := ''all'', selectedProjectId := Some ''a''\<rparr>)"
    by (simp add: fp2 project_a_def)
  from h1 h2 h3 d a g1 b show ?thesis by simp
qed

text \<open>
  Claim C10. When the identifier of the selected project does not occur in the
  filtered list (also when no project is selected), handleNavigate returns normally,
  for next and for prev, with the state it was given: selection, filter and content
  are unchanged.
\<close>

theorem handleNavigate_absent_noop:
  assumes "\<forall>p \<in> set (filteredProjects st). Some (project_id p) \<noteq> selectedProjectId st"
  shows "handleNavigate dir st = Inr st"
proof -
  from assms have "selectedProjectIndex st = - 1"
    by (simp add: selectedProjectIndex_def findIndex_none)
  then show ?thesis by (simp add: handleNavigate_def)
qed

theorem handleNavigate_absent_noop_witness:
  "filteredProjects (sample_app\<lparr>activeCategory := ''digital''\<rparr>) = [project_b]
   \<and> project_id project_b = ''b''
   \<and> selectedProjectId (sample_app\<lparr>activeCategory := ''digital''\<rparr>) = Some ''a''
   \<and> handleNavigate Next (sample_app\<lparr>activeCategory := ''digital''\<rparr>)
       = Inr (sample_app\<lparr>activeCategory := ''digital''\<rparr>)
   \<and> handleNavigate Prev (sample_app\<lparr>activeCategory := ''digital''\<rparr>)
       = Inr (sample_app\<lparr>activeCategory := ''digital''\<rparr>)"
proof -
  let ?st = "sample_app\<lparr>activeCategory := ''digital''\<rparr>"
  have fp: "filteredProjects ?st = [project_b]"
    by (simp add: filteredProjects_def sample_app_def sample_content_def project_a_def project_b_def)
  have sel: "selectedProjectId ?st = Some ''a''" by (simp add: sample_app_def)
  have h: "\<forall>p \<in> set (filteredProjects ?st). Some (project_id p) \<noteq> selectedProjectId ?st"
    by (simp add: fp sel) (simp add: project_b_def)
  have idb: "project_id project_b = ''b''" by (simp add: project_b_def)
  from handleNavigate_absent_noop [OF h, of Next] handleNavigate_absent_noop [OF h, of Prev] fp sel idb
  show ?thesis by simp
qed

section \<open>Properties of swipe recognition\<close>

lemma handleTouchMove_swiping:
  assumes "touchStartX g = Some sx" and "touchStartY g = Some sy"
  shows "handleTouchMove x y g = g\<lparr>isSwiping := isSwiping g \<or> swipe_intent (sx, sy) (x, y)\<rparr>"
  using assms by (cases "isSwiping g") (simp_all add: handleTouchMove_def swipe_intent_def Let_def)

lemma touch_moves_swiping:
  assumes "touchStartX g = Some sx" and "touchStartY g = Some sy"
  shows "touch_moves moves g = g\<lparr>isSwiping := isSwiping g \<or> list_ex (swipe_intent (sx, sy)) moves\<rparr>"
  using assms
proof (induction moves arbitrary: g)
  case Nil
  then show ?case by (simp add: touch_moves_def)
next
  case (Cons m ms)
  obtain x y where m: "m = (x, y)" by (cases m)
  let ?g = "handleTouchMove x y g"
  have step: "?g = g\<lparr>isSwiping := isSwiping g \<or> swipe_intent (sx, sy) (x, y)\<rparr>"
    using Cons.prems by (rule handleTouchMove_swiping)
  then have "touchStartX ?g = Some sx" "touchStartY ?g = Some sy"
    using Cons.prems by simp_all
  from Cons.IH [OF this] have "touch_moves ms ?g =
      ?g\<lparr>isSwiping := isSwiping ?g \<or> list_ex (swipe_intent (sx, sy)) ms\<rparr>" .
  moreover have "touch_moves (m # ms) g = touch_moves ms ?g"
    by (simp add: touch_moves_def m)
  ultimately show ?case
    by (simp add: step m disj_assoc)
qed

lemma touch_sequence_result:
  "touch_sequence sl (sx, sy) moves (rx, ry) g =
     (if list_ex (swipe_intent (sx, sy)) moves
      then
        (if \<bar>rx - sx\<bar> > \<bar>ry - sy\<bar> \<and> \<bar>rx - sx\<bar> > commit_threshold
         then (if rx - sx < 0
               then ([NavNext], (nextSlide sl g)\<lparr>touchStartX := None, touchStartY := None, isSwiping := False\<rparr>)
               else ([NavPrev], (prevSlide sl g)\<lparr>touchStartX := None, touchStartY := None, isSwiping := False\<rparr>))
         else ([], g\<lparr>touchStartX := None, touchStartY := None, isSwiping := False\<rparr>))
      else ([], g\<lparr>touchStartX := Some sx, touchStartY := Some sy, isSwiping := False\<rparr>))"
proof -
  let ?g0 = "handleTouchStart sx sy g"
  have s: "touchStartX ?g0 = Some sx" "touchStartY ?g0 = Some sy" "isSwiping ?g0 = False"
    by (simp_all add: handleTouchStart_def)
  have "touch_moves moves ?g0 = ?g0\<lparr>isSwiping := list_ex (swipe_intent (sx, sy)) moves\<rparr>"
    using touch_moves_swiping [OF s(1,2), of moves] s(3) by simp
  then show ?thesis
    by (simp add: touch_sequence_def handleTouchEnd_def handleTouchStart_def Let_def
        nextSlide_def prevSlide_def)
qed

text \<open>
  Claim C4, as the code has it. For a touch sequence with final displacement
  \<open>(dx, dy)\<close>: when \<open>|dx| \<le> dead_zone\<close> or \<open>|dy| \<ge> |dx|\<close>, no navigation call is made
  and the slide index stays; when \<open>|dx| > commit_threshold\<close> and \<open>|dx| > |dy|\<close> and some
  move point of the sequence showed swipe intent (horizontal displacement from the
  start above the vertical one and above the dead zone), exactly one call is made,
  \<^verbatim>\<open>nextSlide\<close> for \<open>dx < 0\<close> and \<^verbatim>\<open>prevSlide\<close> for \<open>dx > 0\<close>; when no move point showed
  swipe intent, no call is made whatever the displacement; and the dead zone is below
  the commit threshold.
\<close>

theorem swipe_navigation:
  assumes "dx = rx - sx" and "dy = ry - sy"
    and "touch_sequence sl (sx, sy) moves (rx, ry) g = (calls, g')"
  shows "(\<bar>dx\<bar> \<le> dead_zone \<or> \<bar>dy\<bar> \<ge> \<bar>dx\<bar> \<longrightarrow> calls = [] \<and> currentSlide g' = currentSlide g)
       \<and> (\<bar>dx\<bar> > commit_threshold \<and> \<bar>dx\<bar> > \<bar>dy\<bar> \<and> list_ex (swipe_intent (sx, sy)) moves \<longrightarrow>
            (dx < 0 \<longrightarrow> calls = [NavNext] \<and> currentSlide g' = currentSlide (nextSlide sl g))
          \<and> (dx > 0 \<longrightarrow> calls = [NavPrev] \<and> currentSlide g' = currentSlide (prevSlide sl g)))
       \<and> (\<not> list_ex (swipe_intent (sx, sy)) moves \<longrightarrow> calls = [] \<and> currentSlide g' = currentSlide g)
       \<and> dead_zone < commit_threshold"
proof -
  have th: "dead_zone < commit_threshold" by (simp add: dead_zone_def commit_threshold_def)
  have none: "calls = [] \<and> currentSlide g' = currentSlide g"
    if "\<bar>dx\<bar> \<le> dead_zone \<or> \<bar>dy\<bar> \<ge> \<bar>dx\<bar>"
  proof -
    from that th have "\<not> (\<bar>rx - sx\<bar> > \<bar>ry - sy\<bar> \<and> \<bar>rx - sx\<bar> > commit_threshold)"
      using assms(1,2) by linarith
    with assms(3) show ?thesis
      by (auto simp: touch_sequence_result split: if_splits)
  qed
  have one: "(dx < 0 \<longrightarrow> calls = [NavNext] \<and> currentSlide g' = currentSlide (nextSlide sl g))
           \<and> (dx > 0 \<longrightarrow> calls = [NavPrev] \<and> currentSlide g' = currentSlide (prevSlide sl g))"
    if "\<bar>dx\<bar> > commit_threshold \<and> \<bar>dx\<bar> > \<bar>dy\<bar> \<and> list_ex (swipe_intent (sx, sy)) moves"
    using that assms by (auto simp: touch_sequence_result split: if_splits)
  have unswiped: "calls = [] \<and> currentSlide g' = currentSlide g"
    if "\<not> list_ex (swipe_intent (sx, sy)) moves"
    using that assms(3) by (auto simp: touch_sequence_result)
  from none one unswiped th show ?thesis by blast
qed

theorem swipe_navigation_witness:
  "touch_sequence three_slides (100, 100) [(80, 102), (40, 105)] (30, 105) initial_gallery
     = ([NavNext], initial_gallery\<lparr>currentSlide := 1\<rparr>)
   \<and> list_ex (swipe_intent (100, 100)) [(80, 102), (40, 105)]
   \<and> \<bar>(30::int) - 100\<bar> > commit_threshold \<and> \<bar>(30::int) - 100\<bar> > \<bar>(105::int) - 100\<bar>
   \<and> (30::int) - 100 < 0
   \<and> currentSlide (nextSlide three_slides initial_gallery) = 1
   \<and> touch_sequence three_slides (100, 100) [(103, 140)] (104, 170) initial_gallery
     = ([], initial_gallery\<lparr>touchStartX := Some 100, touchStartY := Some 100\<rparr>)
   \<and> \<bar>(170::int) - 100\<bar> \<ge> \<bar>(104::int) - 100\<bar>"
proof -
  have r1: "touch_sequence three_slides (100, 100) [(80, 102), (40, 105)] (30, 105) initial_gallery
      = ([NavNext], initial_gallery\<lparr>currentSlide := 1\<rparr>)"
    by (simp add: touch_sequence_def touch_moves_def handleTouchStart_def handleTouchMove_def
        handleTouchEnd_def dead_zone_def commit_threshold_def nextSlide_def three_slides_def
        initial_gallery_def Let_def smod_int_alt_def)
  have r2: "touch_sequence three_slides (100, 100) [(103, 140)] (104, 170) initial_gallery
      = ([], initial_gallery\<lparr>touchStartX := Some 100, touchStartY := Some 100\<rparr>)"
    by (simp add: touch_sequence_def touch_moves_def handleTouchStart_def handleTouchMove_def
        handleTouchEnd_def dead_zone_def commit_threshold_def initial_gallery_def Let_def)
  have sw: "list_ex (swipe_intent (100, 100)) [(80, 102), (40, 105)]"
    by (simp add: swipe_intent_def dead_zone_def)
  have c: "\<bar>(30::int) - 100\<bar> > commit_threshold" by (simp add: commit_threshold_def)
  from swipe_navigation [OF refl refl r1] swipe_navigation [OF refl refl r2] r1 r2 sw c
  show ?thesis by (simp add: swipe_intent_def dead_zone_def)
qed

text \<open>
  The claim as stated fails for a sequence that never entered swipe mode: the finger
  goes down at \<open>(100, 100)\<close> and is lifted at \<open>(0, 100)\<close> with no move point in between.
  The displacement is \<open>(-100, 0)\<close>, beyond the commit threshold and purely horizontal,
  and handleTouchEnd returns early without a navigation call.
\<close>

theorem swipe_without_move_counterexample:
  "\<bar>(0::int) - 100\<bar> > commit_threshold
   \<and> \<bar>(0::int) - 100\<bar> > \<bar>(100::int) - 100\<bar>
   \<and> (0::int) - 100 < 0
   \<and> fst (touch_sequence three_slides (100, 100) [] (0, 100) initial_gallery) \<noteq> [NavNext]
   \<and> touch_sequence three_slides (100, 100) [] (0, 100) initial_gallery
       = ([], initial_gallery\<lparr>touchStartX := Some 100, touchStartY := Some 100\<rparr>)"
  by (simp add: touch_sequence_def touch_moves_def handleTouchStart_def handleTouchEnd_def
      commit_threshold_def initial_gallery_def)

section \<open>Properties of the draft operations\<close>

lemma those_map_Some: "those (map Some xs) = Some xs"
  by (induction xs) simp_all

lemma moveProject_in_range:
  assumes "index < length (projects draft)"
    and "target = (if dir = Up then index - 1 else index + 1)"
    and "target < length (projects draft)"
    and "\<not> (dir = Up \<and> index = 0)"
    and "\<not> (dir = Down \<and> index + 1 = length (projects draft))"
  shows "moveProject index dir draft =
           Some (draft\<lparr>projects := (projects draft)[index := projects draft ! target,
                                                      target := projects draft ! index]\<rparr>)"
proof -
  let ?ps = "projects draft"
  have guard: "\<not> ((dir = Up \<and> index = 0) \<or> (dir = Down \<and> int index = int (length ?ps) - 1))"
    using assms(4,5) by auto
  have g1: "js_get (map Some ?ps) target = Some (?ps ! target)"
    and g2: "js_get (map Some ?ps) index = Some (?ps ! index)"
    using assms(1,3) by (simp_all add: js_get_def)
  have s1: "js_set (map Some ?ps) index (Some (?ps ! target)) = map Some (?ps[index := ?ps ! target])"
    using assms(1) by (simp add: js_set_def map_update)
  have s2: "js_set (map Some (?ps[index := ?ps ! target])) target (Some (?ps ! index))
          = map Some (?ps[index := ?ps ! target, target := ?ps ! index])"
    using assms(3) by (simp add: js_set_def map_update)
  have "moveProject index dir draft =
      map_option (\<lambda>ps. draft\<lparr>projects := ps\<rparr>)
        (those (js_set (js_set (map Some ?ps) index (js_get (map Some ?ps) target))
                  target (js_get (map Some ?ps) index)))"
    unfolding moveProject_def Let_def if_not_P [OF guard] assms(2) by (rule refl)
  then show ?thesis
    by (simp only: g1 g2 s1 s2 those_map_Some option.map)
qed

text \<open>
  Claim C9. For a position \<open>index\<close> of the draft's project list: moving up past the
  first position or down past the last leaves the draft as it is; otherwise the result
  is the draft with the entries at \<open>index\<close> and its neighbour (\<open>index - 1\<close> for up,
  \<open>index + 1\<close> for down) exchanged, every other position, the length of the list and
  every other field of the draft unchanged.
\<close>

theorem moveProject_swaps_adjacent:
  assumes "index < length (projects draft)"
  shows "(index = 0 \<longrightarrow> moveProject index Up draft = Some draft)
       \<and> (index + 1 = length (projects draft) \<longrightarrow> moveProject index Down draft = Some draft)
       \<and> (\<forall>dir target.
            (dir = Up \<and> 0 < index \<and> target = index - 1
             \<or> dir = Down \<and> index + 1 < length (projects draft) \<and> target = index + 1) \<longrightarrow>
            (\<exists>d'. moveProject index dir draft = Some d'
               \<and> d' = draft\<lparr>projects := (projects draft)[index := projects draft ! target,
                                                            target := projects draft ! index]\<rparr>
               \<and> length (projects d') = length (projects draft)
               \<and> projects d' ! index = projects draft ! target
               \<and> projects d' ! target = projects draft ! index
               \<and> (\<forall>k < length (projects draft).
                     k \<noteq> index \<and> k \<noteq> target \<longrightarrow> projects d' ! k = projects draft ! k)))"
proof -
  have first: "moveProject 0 Up draft = Some draft"
    by (simp add: moveProject_def)
  have last: "moveProject index Down draft = Some draft" if "index + 1 = length (projects draft)"
    using that by (simp add: moveProject_def)
  have swap: "\<exists>d'. moveProject index dir draft = Some d'
      \<and> d' = draft\<lparr>projects := (projects draft)[index := projects draft ! target,
                                                   target := projects draft ! index]\<rparr>
      \<and> length (projects d') = length (projects draft)
      \<and> projects d' ! index = projects draft ! target
      \<and> projects d' ! target = projects draft ! index
      \<and> (\<forall>k < length (projects draft).
            k \<noteq> index \<and> k \<noteq> target \<longrightarrow> projects d' ! k = projects draft ! k)"
    if c: "dir = Up \<and> 0 < index \<and> target = index - 1
         \<or> dir = Down \<and> index + 1 < length (projects draft) \<and> target = index + 1"
    for dir target
  proof -
    from c assms have t: "target < length (projects draft)" and ne: "target \<noteq> index"
      and tg: "target = (if dir = Up then index - 1 else index + 1)"
      and b1: "\<not> (dir = Up \<and> index = 0)"
      and b2: "\<not> (dir = Down \<and> index + 1 = length (projects draft))"
      by auto
    from moveProject_in_range [OF assms tg t b1 b2] assms t ne show ?thesis
      by (simp add: nth_list_update)
  qed
  from first last swap show ?thesis by blast
qed

theorem moveProject_swaps_adjacent_witness:
  "(1::nat) < length (projects sample_content)
   \<and> (0::nat) < length (projects sample_content)
   \<and> moveProject 0 Up sample_content = Some sample_content
   \<and> moveProject 1 Down sample_content = Some sample_content
   \<and> moveProject 1 Up sample_content = Some (sample_content\<lparr>projects := [project_b, project_a]\<rparr>)
   \<and> moveProject 0 Down sample_content = Some (sample_content\<lparr>projects := [project_b, project_a]\<rparr>)"
proof -
  have h1: "(1::nat) < length (projects sample_content)"
    and h0: "(0::nat) < length (projects sample_content)"
    by (simp_all add: sample_content_def)
  note one = moveProject_swaps_adjacent [OF h1]
  note zero = moveProject_swaps_adjacent [OF h0]
  from zero have a: "moveProject 0 Up sample_content = Some sample_content" by blast
  from one have b: "moveProject 1 Down sample_content = Some sample_content"
    by (simp add: sample_content_def)
  from one have "\<exists>d'. moveProject 1 Up sample_content = Some d'
      \<and> d' = sample_content\<lparr>projects := (projects sample_content)[1 := projects sample_content ! 0,
                                                    0 := projects sample_content ! 1]\<rparr>"
    by (simp add: sample_content_def)
  then have c: "moveProject 1 Up sample_content = Some (sample_content\<lparr>projects := [project_b, project_a]\<rparr>)"
    by (simp add: sample_content_def)
  from zero have "\<exists>d'. moveProject 0 Down sample_content = Some d'
      \<and> d' = sample_content\<lparr>projects := (projects sample_content)[0 := projects sample_content ! 1,
                                                    1 := projects sample_content ! 0]\<rparr>"
    by (simp add: sample_content_def)
  then have d: "moveProject 0 Down sample_content = Some (sample_content\<lparr>projects := [project_b, project_a]\<rparr>)"
    by (simp add: sample_content_def)
  from h1 h0 a b c d show ?thesis by simp
qed

section \<open>Properties of the draft editor\<close>

lemma admin_step_publishes:
  assumes "admin_step parse ev s = Inr s'"
  shows "content s' = content s \<or> (ev = Close \<and> isOpen s \<and> content s' = draftContent s)"
  using assms
  by (cases ev)
    (auto simp: handleOpen_def handleClose_def handleExport_def handleImport_def
      split: if_splits sum.splits option.splits)

lemma admin_step_content:
  assumes "ev \<noteq> Close" and "admin_step parse ev s = Inr s'"
  shows "content s' = content s"
  using admin_step_publishes [OF assms(2)] assms(1) by blast

lemma admin_trace_content:
  "Close \<notin> set evs \<Longrightarrow> t \<in> set (admin_trace parse evs s) \<Longrightarrow> content t = content s"
proof (induction evs arbitrary: s)
  case Nil
  then show ?case by simp
next
  case (Cons ev evs)
  show ?case
  proof (cases "t = s")
    case True
    then show ?thesis by simp
  next
    case False
    show ?thesis
    proof (cases "admin_step parse ev s")
      case (Inl e)
      with Cons.prems(2) False show ?thesis by simp
    next
      case (Inr s')
      with Cons.prems(2) False have t: "t \<in> set (admin_trace parse evs s')" by simp
      from Cons.prems(1) have "ev \<noteq> Close" and nc: "Close \<notin> set evs" by auto
      with Cons.IH [OF nc t] admin_step_content [OF _ Inr] show ?thesis by simp
    qed
  qed
qed
lemma admin_trace_head: "admin_trace parse evs s ! 0 = s"
  by (cases evs) simp_all

lemma admin_trace_step:
  "Suc k < length (admin_trace parse evs s) \<Longrightarrow>
     k < length evs \<and>
     admin_step parse (evs ! k) (admin_trace parse evs s ! k) = Inr (admin_trace parse evs s ! Suc k)"
proof (induction evs arbitrary: s k)
  case Nil
  then show ?case by simp
next
  case (Cons ev evs)
  from Cons.prems obtain s' where st: "admin_step parse ev s = Inr s'"
    by (cases "admin_step parse ev s") simp_all
  then have tr: "admin_trace parse (ev # evs) s = s # admin_trace parse evs s'" by simp
  show ?case
  proof (cases k)
    case 0
    with st tr show ?thesis by (simp add: admin_trace_head)
  next
    case (Suc j)
    with Cons.prems tr have "Suc j < length (admin_trace parse evs s')" by simp
    from Cons.IH [OF this] Suc tr show ?thesis by simp
  qed
qed
text \<open>
  Claim C1. Every control of the panel other than close leaves the published content
  as it is: in one step, and in every state of a run without a close, whatever
  mutations (project, gallery image, exhibition, settings, import) it consists of.
  Closing an open panel replaces the published content by the whole draft in that one
  step. In any run, from one state to the next the published content either stays or,
  at a close, becomes the complete draft of the state before: no state in between is
  ever published.
\<close>

theorem draft_isolation:
  "(ev \<noteq> Close \<and> admin_step parse ev s = Inr s' \<longrightarrow> content s' = content s)
   \<and> (isOpen s \<longrightarrow> admin_step parse Close s = Inr (s\<lparr>content := draftContent s, isOpen := False\<rparr>))
   \<and> (Close \<notin> set evs \<longrightarrow> (\<forall>t \<in> set (admin_trace parse evs s). content t = content s))
   \<and> (\<forall>k. Suc k < length (admin_trace parse evs s) \<longrightarrow>
          content (admin_trace parse evs s ! Suc k) = content (admin_trace parse evs s ! k)
        \<or> (evs ! k = Close
           \<and> content (admin_trace parse evs s ! Suc k) = draftContent (admin_trace parse evs s ! k)))"
proof -
  have a: "ev \<noteq> Close \<and> admin_step parse ev s = Inr s' \<longrightarrow> content s' = content s"
    using admin_step_content by blast
  have b: "isOpen s \<longrightarrow> admin_step parse Close s = Inr (s\<lparr>content := draftContent s, isOpen := False\<rparr>)"
    by (simp add: handleClose_def)
  have c: "Close \<notin> set evs \<longrightarrow> (\<forall>t \<in> set (admin_trace parse evs s). content t = content s)"
    using admin_trace_content by blast
  have d: "content (admin_trace parse evs s ! Suc k) = content (admin_trace parse evs s ! k)
        \<or> (evs ! k = Close
           \<and> content (admin_trace parse evs s ! Suc k) = draftContent (admin_trace parse evs s ! k))"
    if "Suc k < length (admin_trace parse evs s)" for k
    using admin_trace_step [OF that] admin_step_publishes by blast
  from a b c d show ?thesis by blast
qed

lemma sample_ids: "project_id project_a = ''a''" "project_id project_b = ''b''"
  by (simp_all add: project_a_def project_b_def)

lemma sample_projects: "projects sample_content = [project_a, project_b]"
  by (simp add: sample_content_def)

text \<open>
  The scenario of the specification: the panel is opened, the first project is
  deleted (and confirmed), the logo is set; the published content is still the sample
  content. Then the panel is closed and the published content is the draft, with the
  project gone.
\<close>

theorem draft_isolation_witness:
  "Close \<notin> set [Open, DeleteProject 0 True, SetLogoUrl ''logo.png'']
   \<and> admin_trace (\<lambda>t. Inl SyntaxError) [Open, DeleteProject 0 True, SetLogoUrl ''logo.png''] sample_editor
       = [sample_editor,
          sample_editor\<lparr>isOpen := True\<rparr>,
          sample_editor\<lparr>isOpen := True, draftContent := sample_content\<lparr>projects := [project_b]\<rparr>\<rparr>,
          sample_editor\<lparr>isOpen := True,
            draftContent := sample_content\<lparr>projects := [project_b], logoUrl := Some ''logo.png''\<rparr>\<rparr>]
   \<and> map content (admin_trace (\<lambda>t. Inl SyntaxError)
                    [Open, DeleteProject 0 True, SetLogoUrl ''logo.png''] sample_editor)
       = [sample_content, sample_content, sample_content, sample_content]
   \<and> isOpen (sample_editor\<lparr>isOpen := True,
         draftContent := sample_content\<lparr>projects := [project_b], logoUrl := Some ''logo.png''\<rparr>\<rparr>)
   \<and> admin_step (\<lambda>t. Inl SyntaxError) Close
         (sample_editor\<lparr>isOpen := True,
            draftContent := sample_content\<lparr>projects := [project_b], logoUrl := Some ''logo.png''\<rparr>\<rparr>)
       = Inr (sample_editor\<lparr>content := sample_content\<lparr>projects := [project_b], logoUrl := Some ''logo.png''\<rparr>,
                draftContent := sample_content\<lparr>projects := [project_b], logoUrl := Some ''logo.png''\<rparr>\<rparr>)"
proof -
  let ?evs = "[Open, DeleteProject 0 True, SetLogoUrl ''logo.png'']"
  let ?p = "\<lambda>t::string. (Inl SyntaxError :: error + SiteContent)"
  let ?s1 = "sample_editor\<lparr>isOpen := True\<rparr>"
  let ?s2 = "sample_editor\<lparr>isOpen := True, draftContent := sample_content\<lparr>projects := [project_b]\<rparr>\<rparr>"
  let ?s3 = "sample_editor\<lparr>isOpen := True,
      draftContent := sample_content\<lparr>projects := [project_b], logoUrl := Some ''logo.png''\<rparr>\<rparr>"
  have nc: "Close \<notin> set ?evs" by simp
  have e1: "admin_step ?p Open sample_editor = Inr ?s1"
    by (simp add: sample_editor_def handleOpen_def)
  have e2: "admin_step ?p (DeleteProject 0 True) ?s1 = Inr ?s2"
    by (simp add: sample_editor_def deleteProject_def sample_projects sample_ids)
  have e3: "admin_step ?p (SetLogoUrl ''logo.png'') ?s2 = Inr ?s3"
    by (simp add: sample_editor_def setLogoUrl_def)
  have tr: "admin_trace ?p ?evs sample_editor = [sample_editor, ?s1, ?s2, ?s3]"
    by (simp only: admin_trace.simps e1 e2 e3 sum.case)
  have op: "isOpen ?s3" by simp
  from draft_isolation [of Open ?p sample_editor sample_editor ?evs]
  have iso: "\<forall>t \<in> set (admin_trace ?p ?evs sample_editor). content t = content sample_editor"
    using nc by blast
  have cs: "content sample_editor = sample_content" by (simp add: sample_editor_def)
  from draft_isolation [of Open ?p ?s3 ?s3 "[]"] op
  have "admin_step ?p Close ?s3 = Inr (?s3\<lparr>content := draftContent ?s3, isOpen := False\<rparr>)"
    by blast
  then have cl: "admin_step ?p Close ?s3
      = Inr (sample_editor\<lparr>content := sample_content\<lparr>projects := [project_b], logoUrl := Some ''logo.png''\<rparr>,
               draftContent := sample_content\<lparr>projects := [project_b], logoUrl := Some ''logo.png''\<rparr>\<rparr>)"
    by (simp add: sample_editor_def)
  from iso cs have all: "\<forall>t \<in> set (admin_trace ?p ?evs sample_editor). content t = sample_content"
    by (simp only:)
  have iso': "map content (admin_trace ?p ?evs sample_editor)
      = [sample_content, sample_content, sample_content, sample_content]"
    using all unfolding tr by simp
  show ?thesis
    by (intro conjI nc tr iso' op cl)
qed

section \<open>Properties of the import\<close>

lemma JSON_parse_empty: "JSON_parse [] = Inl SyntaxError"
  by (simp add: JSON_parse_def skip_ws_def)

lemma JSON_parse_open_brace: "JSON_parse ''{'' = Inl SyntaxError"
  by code_simp

lemma JSON_parse_array: "JSON_parse ''[1, true]'' = Inr (JArray [JNumber ''1'', JBool True])"
  by code_simp

text \<open>
  Claim C2, as the code has it. An import never lets an exception escape, and it
  touches neither the published content nor the open flag. When no file was chosen or
  the text of the file is empty, the state stays as it is and no warning is raised.
  When the text is not empty and \<^verbatim>\<open>JSON.parse\<close> rejects it, the draft stays as it was
  and the warning \<^verbatim>\<open>Invalid JSON file\<close> is raised. When the text is not empty and
  \<^verbatim>\<open>JSON.parse\<close> accepts it, the draft becomes the parsed value, whole, and no warning
  is raised.
\<close>

theorem handleImport_outcomes:
  "(file = None \<or> file = Some [] \<longrightarrow> handleImport parse file s = Inr s)
   \<and> (\<forall>text e. file = Some text \<and> text \<noteq> [] \<and> parse text = Inl e \<longrightarrow>
          handleImport parse file s = Inr (s\<lparr>alerts := alerts s @ [''Invalid JSON file'']\<rparr>))
   \<and> (\<forall>text v. file = Some text \<and> text \<noteq> [] \<and> parse text = Inr v \<longrightarrow>
          handleImport parse file s = Inr (s\<lparr>draftContent := v\<rparr>))
   \<and> (\<exists>s'. handleImport parse file s = Inr s' \<and> content s' = content s \<and> isOpen s' = isOpen s)"
proof -
  have a: "file = None \<or> file = Some [] \<longrightarrow> handleImport parse file s = Inr s"
    by (auto simp: handleImport_def)
  have b: "handleImport parse file s = Inr (s\<lparr>alerts := alerts s @ [''Invalid JSON file'']\<rparr>)"
    if "file = Some body \<and> body \<noteq> [] \<and> parse body = Inl e" for body e
    using that by (simp add: handleImport_def)
  have c: "handleImport parse file s = Inr (s\<lparr>draftContent := v\<rparr>)"
    if "file = Some body \<and> body \<noteq> [] \<and> parse body = Inr v" for body v
    using that by (simp add: handleImport_def)
  have d: "\<exists>s'. handleImport parse file s = Inr s' \<and> content s' = content s \<and> isOpen s' = isOpen s"
    by (auto simp: handleImport_def split: option.splits sum.splits)
  from a b c d show ?thesis by blast
qed

theorem handleImport_outcomes_witness:
  "''{'' \<noteq> [] \<and> JSON_parse ''{'' = Inl SyntaxError
   \<and> handleImport JSON_parse (Some ''{'') sample_json_editor
       = Inr (sample_json_editor\<lparr>alerts := [''Invalid JSON file'']\<rparr>)
   \<and> ''[1, true]'' \<noteq> [] \<and> JSON_parse ''[1, true]'' = Inr (JArray [JNumber ''1'', JBool True])
   \<and> handleImport JSON_parse (Some ''[1, true]'') sample_json_editor
       = Inr (sample_json_editor\<lparr>draftContent := JArray [JNumber ''1'', JBool True]\<rparr>)
   \<and> handleImport JSON_parse None sample_json_editor = Inr sample_json_editor"
proof -
  have al: "alerts sample_json_editor = []" by (simp add: sample_json_editor_def)
  from handleImport_outcomes [of "Some ''{''" JSON_parse sample_json_editor] JSON_parse_open_brace
  have "handleImport JSON_parse (Some ''{'') sample_json_editor
      = Inr (sample_json_editor\<lparr>alerts := alerts sample_json_editor @ [''Invalid JSON file'']\<rparr>)"
    by blast
  then have bad: "handleImport JSON_parse (Some ''{'') sample_json_editor
      = Inr (sample_json_editor\<lparr>alerts := [''Invalid JSON file'']\<rparr>)"
    by (simp only: al append_Nil)
  from handleImport_outcomes [of "Some ''[1, true]''" JSON_parse sample_json_editor] JSON_parse_array
  have good: "handleImport JSON_parse (Some ''[1, true]'') sample_json_editor
      = Inr (sample_json_editor\<lparr>draftContent := JArray [JNumber ''1'', JBool True]\<rparr>)"
    by blast
  from handleImport_outcomes [of None JSON_parse sample_json_editor]
  have none: "handleImport JSON_parse None sample_json_editor = Inr sample_json_editor"
    by blast
  have ne: "''{'' \<noteq> []" "''[1, true]'' \<noteq> []" by simp_all
  show ?thesis
    by (intro conjI ne JSON_parse_open_brace bad JSON_parse_array good none)
qed

text \<open>
  The claim as stated fails for the empty file. Its text is not well-formed JSON
  (\<^verbatim>\<open>JSON.parse("")\<close> throws), yet the guard \<^verbatim>\<open>if (e.target?.result)\<close> skips the parse
  and the \<^verbatim>\<open>catch\<close> with it: the draft is preserved, but no warning is raised.
\<close>

theorem import_empty_file_counterexample:
  "JSON_parse [] = Inl SyntaxError
   \<and> handleImport JSON_parse (Some []) sample_json_editor = Inr sample_json_editor
   \<and> alerts sample_json_editor = []"
  by (simp add: JSON_parse_empty handleImport_def sample_json_editor_def)

section \<open>Properties of the identifiers\<close>

lemma set_project_field_id: "project_id (set_project_field upd p) = project_id p"
  by (cases upd) simp_all

lemma set_exhibition_field_id: "exhibition_id (set_exhibition_field upd e) = exhibition_id e"
  by (cases upd) simp_all

lemma updateProject_ids:
  "map project_id (projects (updateProject i upd d)) = map project_id (projects d)"
  "exhibitions (updateProject i upd d) = exhibitions d"
  by (simp_all add: updateProject_def o_def if_distrib [of project_id] set_project_field_id)

lemma updateExhibition_ids:
  "map exhibition_id (exhibitions (updateExhibition i upd d)) = map exhibition_id (exhibitions d)"
  "projects (updateExhibition i upd d) = projects d"
  by (simp_all add: updateExhibition_def o_def if_distrib [of exhibition_id] set_exhibition_field_id)

lemma ids_unique_updateProject: "ids_unique (updateProject i upd d) = ids_unique d"
  by (simp add: ids_unique_def updateProject_ids)

lemma ids_unique_updateExhibition: "ids_unique (updateExhibition i upd d) = ids_unique d"
  by (simp add: ids_unique_def updateExhibition_ids)

lemma ids_unique_deleteProject: "ids_unique d \<Longrightarrow> ids_unique (deleteProject i c d)"
  by (simp add: ids_unique_def deleteProject_def distinct_map_filter)

lemma ids_unique_deleteExhibition: "ids_unique d \<Longrightarrow> ids_unique (deleteExhibition i c d)"
  by (simp add: ids_unique_def deleteExhibition_def distinct_map_filter)

lemma ids_unique_settings:
  "ids_unique (setLogoUrl v d) = ids_unique d"
  "ids_unique (setHeroLogoUrl v d) = ids_unique d"
  "ids_unique (setContactEmail v d) = ids_unique d"
  by (simp_all add: ids_unique_def setLogoUrl_def setHeroLogoUrl_def setContactEmail_def)

lemma ids_unique_images:
  "imageUrlChange p idx v d = Inr d' \<Longrightarrow> ids_unique d' = ids_unique d"
  "imageAltChange p idx v d = Inr d' \<Longrightarrow> ids_unique d' = ids_unique d"
  "ids_unique (imageRemove p idx d) = ids_unique d"
  "ids_unique (imageAdd p d) = ids_unique d"
  by (auto simp: imageUrlChange_def imageAltChange_def imageRemove_def imageAdd_def Let_def
      ids_unique_updateProject split: option.splits)

lemma addProject_ids:
  "map project_id (projects (addProject clk d)) = toString_nat (now clk) # map project_id (projects d)"
  "exhibitions (addProject clk d) = exhibitions d"
  by (simp_all add: addProject_def Let_def)

lemma addExhibition_ids:
  "map exhibition_id (exhibitions (addExhibition clk d))
     = toString_nat (now clk) # map exhibition_id (exhibitions d)"
  "projects (addExhibition clk d) = projects d"
  by (simp_all add: addExhibition_def Let_def)

lemma ids_unique_moveProject:
  assumes "index < length (projects d)" and "moveProject index dir d = Some d'" and "ids_unique d"
  shows "ids_unique d'"
proof (cases "(dir = Up \<and> index = 0) \<or> (dir = Down \<and> index + 1 = length (projects d))")
  case True
  with assms(1) have "moveProject index dir d = Some d"
    by (auto simp: moveProject_def)
  with assms(2,3) show ?thesis by simp
next
  case False
  define target where "target = (if dir = Up then index - 1 else index + 1)"
  from False assms(1) have t: "target < length (projects d)"
    by (cases dir) (auto simp: target_def)
  from False have b1: "\<not> (dir = Up \<and> index = 0)"
    and b2: "\<not> (dir = Down \<and> index + 1 = length (projects d))" by auto
  from moveProject_in_range [OF assms(1) target_def t b1 b2] assms(2)
  have d': "d' = d\<lparr>projects := (projects d)[index := projects d ! target, target := projects d ! index]\<rparr>"
    by simp
  have "map project_id ((projects d)[index := projects d ! target, target := projects d ! index])
      = (map project_id (projects d))[index := map project_id (projects d) ! target,
                                      target := map project_id (projects d) ! index]"
    using assms(1) t by (simp add: map_update)
  moreover have "distinct ((map project_id (projects d))[index := map project_id (projects d) ! target,
                                      target := map project_id (projects d) ! index])
      = distinct (map project_id (projects d))"
    using assms(1) t by (intro distinct_swap) simp_all
  ultimately show ?thesis
    using assms(3) by (simp add: ids_unique_def d')
qed
lemma digit_inj: "a < 10 \<Longrightarrow> b < 10 \<Longrightarrow> digit a = digit b \<Longrightarrow> a = b"
  by (simp add: digit_def char_of_eq_iff take_bit_nat_eq_self)

lemma toString_nat_length: "length (toString_nat n) = 1 \<longleftrightarrow> n < 10"
proof (cases "n < 10")
  case True
  then show ?thesis by (simp add: toString_nat.simps [of n])
next
  case False
  have "toString_nat (n div 10) \<noteq> []"
    by (simp add: toString_nat.simps [of "n div 10"])
  with False show ?thesis by (simp add: toString_nat.simps [of n])
qed

lemma toString_nat_inj: "toString_nat m = toString_nat n \<Longrightarrow> m = n"
proof (induction m arbitrary: n rule: toString_nat.induct)
  case (1 m)
  show ?case
  proof (cases "m < 10")
    case True
    with "1.prems" toString_nat_length [of m] toString_nat_length [of n] have n: "n < 10" by simp
    with True "1.prems" show ?thesis
      by (simp add: toString_nat.simps [of m] toString_nat.simps [of n] digit_inj)
  next
    case False
    with "1.prems" toString_nat_length [of m] toString_nat_length [of n] have n: "\<not> n < 10" by simp
    with False "1.prems" have eq: "toString_nat (m div 10) = toString_nat (n div 10)"
      and dg: "digit (m mod 10) = digit (n mod 10)"
      by (simp_all add: toString_nat.simps [of m] toString_nat.simps [of n])
    from "1.IH" [OF False eq] have "m div 10 = n div 10" .
    moreover from dg have "m mod 10 = n mod 10" by (intro digit_inj) simp_all
    ultimately show ?thesis by (metis div_mult_mod_eq)
  qed
qed

lemma toString_sample: "toString_nat 1700000000000 = ''1700000000000''"
  by (simp add: toString_nat.simps digit_def; code_simp)
lemma ids_unique_draft_op:
  assumes "ids_unique d" and "draft_op ev d = Inr d'"
    and "\<forall>clk. ev = AddProject clk \<longrightarrow> toString_nat (now clk) \<notin> project_id ` set (projects d)"
    and "\<forall>clk. ev = AddExhibition clk \<longrightarrow> toString_nat (now clk) \<notin> exhibition_id ` set (exhibitions d)"
  shows "ids_unique d'"
proof (cases ev)
  case (AddProject clk)
  with assms show ?thesis by (auto simp: ids_unique_def addProject_ids)
next
  case (AddExhibition clk)
  with assms show ?thesis by (auto simp: ids_unique_def addExhibition_ids)
next
  case (MoveProject k dir)
  with assms(1,2) show ?thesis
    by (auto split: if_splits option.splits dest: ids_unique_moveProject)
next
  case (ImageUrlChange k idx v)
  with assms(1,2) show ?thesis by (auto split: if_splits simp: ids_unique_images)
next
  case (ImageAltChange k idx v)
  with assms(1,2) show ?thesis by (auto split: if_splits simp: ids_unique_images)
qed (use assms(1,2) in \<open>auto split: if_splits
      simp: ids_unique_settings ids_unique_updateProject ids_unique_updateExhibition
        ids_unique_deleteProject ids_unique_deleteExhibition ids_unique_images\<close>)

lemma handleImport_draft:
  assumes "handleImport parse file s = Inr s'"
  shows "content s' = content s
       \<and> (draftContent s' = draftContent s
          \<or> (\<exists>body. file = Some body \<and> parse body = Inr (draftContent s')))"
  using assms by (auto simp: handleImport_def split: option.splits if_splits sum.splits)

text \<open>
  Claim C7, as the code has it. Unique identifiers, in the published content and in
  the draft, are kept by every step of the editor, provided that an import stores a
  value whose identifiers are unique and that an add reads a clock whose decimal
  reading is not yet an identifier of the collection. The entry that an add puts in
  front carries the decimal of \<^verbatim>\<open>Date.now()\<close> as its identifier, and different
  readings of the clock give different identifiers.
\<close>

theorem ids_unique_preserved:
  assumes "ids_unique (content s)" and "ids_unique (draftContent s)"
    and "admin_step parse ev s = Inr s'"
    and "\<forall>body v. ev = Import (Some body) \<and> parse body = Inr v \<longrightarrow> ids_unique v"
    and "\<forall>clk. ev = AddProject clk \<longrightarrow>
           toString_nat (now clk) \<notin> project_id ` set (projects (draftContent s))"
    and "\<forall>clk. ev = AddExhibition clk \<longrightarrow>
           toString_nat (now clk) \<notin> exhibition_id ` set (exhibitions (draftContent s))"
  shows "ids_unique (content s') \<and> ids_unique (draftContent s')
       \<and> (\<forall>clk. isOpen s \<and> ev = AddProject clk \<longrightarrow>
            map project_id (projects (draftContent s'))
              = toString_nat (now clk) # map project_id (projects (draftContent s)))
       \<and> (\<forall>clk. isOpen s \<and> ev = AddExhibition clk \<longrightarrow>
            map exhibition_id (exhibitions (draftContent s'))
              = toString_nat (now clk) # map exhibition_id (exhibitions (draftContent s)))
       \<and> (\<forall>(clk::clock) (clk'::clock).
            now clk \<noteq> now clk' \<longrightarrow> toString_nat (now clk) \<noteq> toString_nat (now clk'))"
proof -
  have inv: "ids_unique (content s') \<and> ids_unique (draftContent s')"
  proof (cases "ev = Open \<or> ev = Close \<or> ev = Export \<or> (\<exists>f. ev = Import f)")
    case True
    then consider "ev = Open" | "ev = Close" | "ev = Export" | f where "ev = Import f"
      by blast
    then show ?thesis
    proof cases
      case 1
      with assms(1-3) show ?thesis by (auto simp: handleOpen_def split: if_splits)
    next
      case 2
      with assms(1-3) show ?thesis by (auto simp: handleClose_def split: if_splits)
    next
      case 3
      with assms(1-3) show ?thesis by (auto simp: handleExport_def split: if_splits)
    next
      case 4
      with assms(3) have "handleImport parse f s = Inr s'" by simp
      from handleImport_draft [OF this] assms(1,2,4) 4 show ?thesis by auto
    qed
  next
    case False
    then have step: "admin_step parse ev s =
        (if isOpen s
         then (case draft_op ev (draftContent s) of Inl e \<Rightarrow> Inl e
               | Inr d \<Rightarrow> Inr (s\<lparr>draftContent := d\<rparr>))
         else Inr s)"
      by (cases ev) simp_all
    show ?thesis
    proof (cases "isOpen s")
      case True
      with step assms(3) obtain d where d: "draft_op ev (draftContent s) = Inr d"
        and s': "s' = s\<lparr>draftContent := d\<rparr>"
        by (auto split: sum.splits)
      from ids_unique_draft_op [OF assms(2) d assms(5,6)] s' assms(1) show ?thesis by simp
    next
      case False
      with step assms(1-3) show ?thesis by simp
    qed
  qed
  have addp: "map project_id (projects (draftContent s'))
      = toString_nat (now clk) # map project_id (projects (draftContent s))"
    if "isOpen s \<and> ev = AddProject clk" for clk
    using that assms(3) by (auto simp: addProject_ids)
  have adde: "map exhibition_id (exhibitions (draftContent s'))
      = toString_nat (now clk) # map exhibition_id (exhibitions (draftContent s))"
    if "isOpen s \<and> ev = AddExhibition clk" for clk
    using that assms(3) by (auto simp: addExhibition_ids)
  have inj: "toString_nat (now clk) \<noteq> toString_nat (now clk')" if "now clk \<noteq> now clk'" for clk clk' :: clock
    using that toString_nat_inj by blast
  from inv addp adde inj show ?thesis by blast
qed
theorem ids_unique_preserved_witness:
  "ids_unique (content (sample_editor\<lparr>isOpen := True\<rparr>))
   \<and> ids_unique (draftContent (sample_editor\<lparr>isOpen := True\<rparr>))
   \<and> admin_step (\<lambda>t. Inl SyntaxError) (AddProject sample_clock) (sample_editor\<lparr>isOpen := True\<rparr>)
       = Inr (sample_editor\<lparr>isOpen := True, draftContent := addProject sample_clock sample_content\<rparr>)
   \<and> toString_nat (now sample_clock)
       \<notin> project_id ` set (projects (draftContent (sample_editor\<lparr>isOpen := True\<rparr>)))
   \<and> ids_unique (addProject sample_clock sample_content)
   \<and> map project_id (projects (addProject sample_clock sample_content)) = [''1700000000000'', ''a'', ''b'']"
proof -
  let ?p = "\<lambda>t::string. (Inl SyntaxError :: error + SiteContent)"
  let ?s = "sample_editor\<lparr>isOpen := True\<rparr>"
  let ?s' = "sample_editor\<lparr>isOpen := True, draftContent := addProject sample_clock sample_content\<rparr>"
  have nw: "toString_nat (now sample_clock) = ''1700000000000''"
    by (simp add: sample_clock_def toString_sample)
  have u: "ids_unique sample_content"
    by (simp add: ids_unique_def sample_projects sample_ids) (simp add: sample_content_def)
  have h1: "ids_unique (content ?s)" and h2: "ids_unique (draftContent ?s)"
    using u by (simp_all add: sample_editor_def)
  have h3: "admin_step ?p (AddProject sample_clock) ?s = Inr ?s'"
    by (simp add: sample_editor_def)
  have h4: "\<forall>body v. AddProject sample_clock = Import (Some body) \<and> ?p body = Inr v \<longrightarrow> ids_unique v"
    by simp
  have fresh: "toString_nat (now sample_clock) \<notin> project_id ` set (projects (draftContent ?s))"
    by (simp add: nw sample_editor_def sample_projects sample_ids)
  then have h5: "\<forall>clk. AddProject sample_clock = AddProject clk \<longrightarrow>
      toString_nat (now clk) \<notin> project_id ` set (projects (draftContent ?s))"
    by simp
  have h6: "\<forall>clk. AddProject sample_clock = AddExhibition clk \<longrightarrow>
      toString_nat (now clk) \<notin> exhibition_id ` set (exhibitions (draftContent ?s))"
    by simp
  note pres = ids_unique_preserved [OF h1 h2 h3 h4 h5 h6]
  from pres have r1: "ids_unique (draftContent ?s')" by blast
  have op: "isOpen ?s \<and> AddProject sample_clock = AddProject sample_clock" by simp
  from pres op have "map project_id (projects (draftContent ?s'))
      = toString_nat (now sample_clock) # map project_id (projects (draftContent ?s))"
    by blast
  then have r2: "map project_id (projects (addProject sample_clock sample_content))
      = [''1700000000000'', ''a'', ''b'']"
    by (simp add: nw sample_editor_def sample_projects sample_ids)
  from r1 have r1': "ids_unique (addProject sample_clock sample_content)" by simp
  show ?thesis
    by (intro conjI h1 h2 h3 fresh r1' r2)
qed

text \<open>
  The claim as stated fails when the clock is read twice at the same millisecond (a
  double click, a clock of coarse resolution, a clock set back): the draft with the
  first new project has unique identifiers, and the second add gives the second new
  project the identifier of the first.
\<close>

theorem add_same_clock_counterexample:
  "ids_unique (addProject sample_clock sample_content)
   \<and> \<not> ids_unique (addProject sample_clock (addProject sample_clock sample_content))"
proof -
  have nw: "toString_nat (now sample_clock) = ''1700000000000''"
    by (simp add: sample_clock_def toString_sample)
  have ex: "exhibitions sample_content = []" by (simp add: sample_content_def)
  show ?thesis
    by (simp add: ids_unique_def addProject_ids nw sample_projects sample_ids ex)
qed

section \<open>The slide index across project navigation\<close>

lemma length_slides: "length (slides p) = (if images p = [] then 1 else length (images p))"
  by (simp add: slides_def)

lemma render_slide_in_range:
  "0 \<le> currentSlide g \<Longrightarrow> currentSlide g < int (length sl) \<Longrightarrow>
     render_slide sl g = Inr (sl ! nat (currentSlide g))"
  by (simp add: render_slide_def array_get_def)

lemma render_slide_out_of_range:
  "\<not> (0 \<le> currentSlide g \<and> currentSlide g < int (length sl)) \<Longrightarrow>
     render_slide sl g = Inl TypeError"
  by (auto simp: render_slide_def array_get_def)

text \<open>
  As long as the slide list stays the same, the handlers of the gallery keep the index
  inside it.
\<close>

lemma slide_index_kept_in_range:
  assumes "sl \<noteq> []" and "0 \<le> currentSlide g" and "currentSlide g < int (length sl)"
  shows "0 \<le> currentSlide (nextSlide sl g) \<and> currentSlide (nextSlide sl g) < int (length sl)"
    and "0 \<le> currentSlide (prevSlide sl g) \<and> currentSlide (prevSlide sl g) < int (length sl)"
    and "currentSlide (handleTouchStart x y g) = currentSlide g"
    and "currentSlide (handleTouchMove x y g) = currentSlide g"
proof -
  from assms have pos: "0 < int (length sl)" by simp
  show "0 \<le> currentSlide (nextSlide sl g) \<and> currentSlide (nextSlide sl g) < int (length sl)"
    using assms pos by (simp add: nextSlide_def smod_nonneg)
  show "0 \<le> currentSlide (prevSlide sl g) \<and> currentSlide (prevSlide sl g) < int (length sl)"
    using assms pos by (simp add: prevSlide_def smod_nonneg)
  show "currentSlide (handleTouchStart x y g) = currentSlide g"
    by (simp add: handleTouchStart_def)
  show "currentSlide (handleTouchMove x y g) = currentSlide g"
    by (simp add: handleTouchMove_def Let_def split: option.splits)
qed

lemma sample_filtered_all:
  "filteredProjects \<lparr>app_content = Some sample_content, isAdmin = False,
     activeCategory = ''all'', selectedProjectId = x\<rparr> = [project_a, project_b]"
  by (simp add: filteredProjects_def sample_projects)

lemma sample_selected:
  "selectedProject \<lparr>app_content = Some sample_content, isAdmin = False,
     activeCategory = ''all'', selectedProjectId = Some ''a''\<rparr> = Some project_a"
  "selectedProject \<lparr>app_content = Some sample_content, isAdmin = False,
     activeCategory = ''all'', selectedProjectId = Some ''b''\<rparr> = Some project_b"
  "selectedProjectIndex \<lparr>app_content = Some sample_content, isAdmin = False,
     activeCategory = ''all'', selectedProjectId = Some ''a''\<rparr> = 0"
  by (simp_all add: selectedProject_def selectedProjectIndex_def sample_filtered_all sample_ids
      array_get_def)

lemma sample_slide_counts: "length (slides project_a) = 2" "length (slides project_b) = 1"
  by (simp_all add: length_slides project_a_def project_b_def)
lemma viewing_facts:
  "filteredProjects (viewing i) = [project_a, project_b]"
  "selectedProjectIndex (viewing ''a'') = 0"
  "selectedProject (viewing ''a'') = Some project_a"
  "selectedProject (viewing ''b'') = Some project_b"
  by (simp_all add: viewing_def sample_filtered_all sample_selected)

lemma navigate_a_to_b: "handleNavigate Next (viewing ''a'') = Inr (viewing ''b'')"
proof -
  have "array_get [project_a, project_b] 1 = Some project_b" by (simp add: array_get_def)
  then show ?thesis
    by (simp add: handleNavigate_def viewing_facts Let_def sample_ids) (simp add: viewing_def)
qed

text \<open>
  Claim C8 at a concrete page. The content holds project \<open>a\<close> with two gallery images
  and project \<open>b\<close> with none. The visitor opens \<open>a\<close> and clicks the next-slide button:
  the gallery shows slide 1 of 2. The visitor then clicks next project in the header.
  The shell selects \<open>b\<close>, whose slide list is the thumbnail alone; the mounted gallery
  keeps its index 1, which names no slide of \<open>b\<close>, and rendering throws a TypeError.
\<close>

theorem stale_slide_index_after_project_navigation:
  "page_run [ClickProject ''a'', ClickNextSlide] (initial_page sample_content)
     = Inr \<lparr>app = viewing ''a'', detail = Some (initial_gallery\<lparr>currentSlide := 1\<rparr>)\<rparr>
   \<and> length (slides project_a) = 2
   \<and> handleNavigate Next (viewing ''a'') = Inr (viewing ''b'')
   \<and> selectedProject (viewing ''b'') = Some project_b
   \<and> length (slides project_b) = 1
   \<and> mount_detail (viewing ''b'') (Some (initial_gallery\<lparr>currentSlide := 1\<rparr>))
       = Some (initial_gallery\<lparr>currentSlide := 1\<rparr>)
   \<and> render_slide (slides project_b) (initial_gallery\<lparr>currentSlide := 1\<rparr>) = Inl TypeError
   \<and> page_run [ClickProject ''a'', ClickNextSlide, NavigateProject Next] (initial_page sample_content)
       = Inl TypeError"
proof -
  let ?g1 = "initial_gallery\<lparr>currentSlide := 1\<rparr>"
  let ?p0 = "\<lparr>app = viewing ''a'', detail = Some initial_gallery\<rparr>"
  let ?p1 = "\<lparr>app = viewing ''a'', detail = Some ?g1\<rparr>"
  have r0: "render_slide (slides project_a) initial_gallery = Inr (slides project_a ! 0)"
    using render_slide_in_range [of initial_gallery "slides project_a"]
    by (simp add: sample_slide_counts initial_gallery_def)
  have r1: "render_slide (slides project_a) ?g1 = Inr (slides project_a ! 1)"
    using render_slide_in_range [of ?g1 "slides project_a"]
    by (simp add: sample_slide_counts)
  have r2: "render_slide (slides project_b) ?g1 = Inl TypeError"
    by (rule render_slide_out_of_range) (simp add: sample_slide_counts)
  have m2: "mount_detail (viewing ''b'') (Some ?g1) = Some ?g1"
    by (simp add: mount_detail_def viewing_facts)
  have s1: "page_step (ClickProject ''a'') (initial_page sample_content) = Inr ?p0"
    by (simp add: initial_page_def rerender_def mount_detail_def viewing_def [symmetric]
        viewing_facts r0 Let_def)
  have nx: "nextSlide (slides project_a) initial_gallery = ?g1"
    by (simp add: nextSlide_def sample_slide_counts initial_gallery_def smod_int_alt_def)
  have s2: "page_step ClickNextSlide ?p0 = Inr ?p1"
    by (simp add: click_slide_def rerender_def mount_detail_def viewing_facts
        sample_slide_counts nx r1 Let_def)
  have s3: "page_step (NavigateProject Next) ?p1 = Inl TypeError"
    by (simp add: navigate_a_to_b rerender_def m2 viewing_facts r2 Let_def)
  have run2: "page_run [ClickProject ''a'', ClickNextSlide] (initial_page sample_content) = Inr ?p1"
    by (simp only: page_run.simps s1 s2 sum.case)
  have run3: "page_run [ClickProject ''a'', ClickNextSlide, NavigateProject Next]
      (initial_page sample_content) = Inl TypeError"
    by (simp only: page_run.simps s1 s2 s3 sum.case)
  show ?thesis
    by (intro conjI run2 sample_slide_counts navigate_a_to_b viewing_facts(4) m2 r2 run3)
qed

end
